theory Spec2Isabelle
  imports Complex_Main
begin

section \<open>JavaScript numbers\<close>

text \<open>
  The program computes with JavaScript numbers, which are binary64 doubles. Every input
  reaches the computation through \<^verbatim>\<open>Number(e.target.value)\<close> of a numeric form field,
  so inputs are finite. The arithmetic is read in two ways.

  In the exact reading (\<open>sectionProps\<close>, \<open>Q_point\<close>, the stress constants) a finite
  number is a real and every operation is exact; the only results that are not finite come
  from a division whose divisor is zero and from \<^verbatim>\<open>Math.pow\<close> with a negative base and
  the exponent 1.5. It shows which branch and which expression the code evaluates where
  the tests compare inputs with each other.

  In the binary64 reading (\<open>sectionProps_d\<close>, \<open>Q_point_d\<close>, \<open>stresses_at_d\<close>, further
  down) every operation rounds to the nearest double, overflows to an infinity and
  underflows to zero. It is the one to use where a test compares a computed value, or
  where the sign of a result or its being zero matters.

  Zero is unsigned in both readings.
\<close>

datatype jsnum = Fin real | PInf | NInf | NaN

fun isFinite :: "jsnum \<Rightarrow> bool" where
  "isFinite (Fin x) = True"
| "isFinite PInf = False"
| "isFinite NInf = False"
| "isFinite NaN = False"

fun js_neg :: "jsnum \<Rightarrow> jsnum" where
  "js_neg (Fin x) = Fin (- x)"
| "js_neg PInf = NInf"
| "js_neg NInf = PInf"
| "js_neg NaN = NaN"

fun js_add :: "jsnum \<Rightarrow> jsnum \<Rightarrow> jsnum" where
  "js_add (Fin x) (Fin y) = Fin (x + y)"
| "js_add NaN b = NaN"
| "js_add a NaN = NaN"
| "js_add PInf NInf = NaN"
| "js_add NInf PInf = NaN"
| "js_add PInf b = PInf"
| "js_add NInf b = NInf"
| "js_add a PInf = PInf"
| "js_add a NInf = NInf"

definition js_sub :: "jsnum \<Rightarrow> jsnum \<Rightarrow> jsnum" where
  "js_sub a b = js_add a (js_neg b)"

text \<open>The sign of a product or quotient with an infinite operand.\<close>

definition signed_inf :: "bool \<Rightarrow> jsnum" where
  "signed_inf positive = (if positive then PInf else NInf)"

fun js_mul :: "jsnum \<Rightarrow> jsnum \<Rightarrow> jsnum" where
  "js_mul (Fin x) (Fin y) = Fin (x * y)"
| "js_mul NaN b = NaN"
| "js_mul a NaN = NaN"
| "js_mul (Fin x) PInf = (if x = 0 then NaN else signed_inf (0 < x))"
| "js_mul (Fin x) NInf = (if x = 0 then NaN else signed_inf (x < 0))"
| "js_mul PInf (Fin y) = (if y = 0 then NaN else signed_inf (0 < y))"
| "js_mul NInf (Fin y) = (if y = 0 then NaN else signed_inf (y < 0))"
| "js_mul PInf PInf = PInf"
| "js_mul PInf NInf = NInf"
| "js_mul NInf PInf = NInf"
| "js_mul NInf NInf = PInf"

text \<open>
  Division. A finite nonzero number over zero is an infinity, zero over zero is NaN, and
  nothing is thrown. Zero is unsigned here, so the infinity takes the sign of the dividend.
\<close>

fun js_div :: "jsnum \<Rightarrow> jsnum \<Rightarrow> jsnum" where
  "js_div (Fin x) (Fin y) =
     (if y = 0 then (if x = 0 then NaN else signed_inf (0 < x)) else Fin (x / y))"
| "js_div NaN b = NaN"
| "js_div a NaN = NaN"
| "js_div (Fin x) PInf = Fin 0"
| "js_div (Fin x) NInf = Fin 0"
| "js_div PInf (Fin y) = signed_inf (0 \<le> y)"
| "js_div NInf (Fin y) = signed_inf (y < 0)"
| "js_div PInf PInf = NaN"
| "js_div PInf NInf = NaN"
| "js_div NInf PInf = NaN"
| "js_div NInf NInf = NaN"

text \<open>\<^verbatim>\<open>Math.pow(x, 1.5)\<close>: NaN for a negative base, 0 at 0, the real power otherwise.\<close>

definition Math_pow15 :: "real \<Rightarrow> jsnum" where
  "Math_pow15 x = (if x < 0 then NaN else Fin (x powr (3 / 2)))"

section \<open>Data model\<close>

text \<open>
  The SI values of the dimension fields. The component keeps one state variable for every
  dimension of every section kind; \<open>sectionType\<close> selects which of them are read.
\<close>

record dims =
  rectWidthSI :: real
  rectHeightSI :: real
  circleDiameterSI :: real
  hollowOuterSI :: real
  hollowInnerSI :: real
  iBeamDepthSI :: real
  iBeamFlangeWidthSI :: real
  iBeamFlangeThickSI :: real
  iBeamWebThickSI :: real

record sectionProperties =
  area :: real
  inertia :: real
  polarInertia :: real
  outerRadius :: real
  shearThickness :: real

record loadSet =
  forceSI :: real
  momentSI :: real
  torqueSI :: real
  shearForceSI :: real

record stressResult =
  axial :: jsnum
  bending :: jsnum
  torsionalShear :: jsnum
  transverseShear :: jsnum

section \<open>Cross-section properties\<close>

text \<open>
  \<^verbatim>\<open>sectionProps\<close> of App.jsx. The five variables start at 0 and one branch of the
  chain on \<open>sectionType\<close> assigns them; a tag that matches no branch leaves them at 0.
  \<^verbatim>\<open>Math.pow\<close> with the exponents 2, 3 and 4 is the real power.
\<close>

definition sectionProps :: "string \<Rightarrow> dims \<Rightarrow> sectionProperties" where
  "sectionProps sectionType d =
    (if sectionType = ''rectangle'' then
       \<lparr>area = rectWidthSI d * rectHeightSI d,
        inertia = (rectWidthSI d * rectHeightSI d ^ 3) / 12,
        polarInertia = (rectWidthSI d * rectHeightSI d ^ 3) / 3,
        outerRadius = rectHeightSI d / 2,
        shearThickness = rectWidthSI d\<rparr>
     else if sectionType = ''circle'' then
       (let r = circleDiameterSI d / 2 in
        \<lparr>area = pi * r ^ 2,
         inertia = (pi * r ^ 4) / 4,
         polarInertia = (pi * r ^ 4) / 2,
         outerRadius = r,
         shearThickness = circleDiameterSI d\<rparr>)
     else if sectionType = ''hollowCircle'' then
       (let R_o = hollowOuterSI d; R_i = hollowInnerSI d in
        if R_i \<ge> R_o then
          \<lparr>area = 0, inertia = 0, polarInertia = 0, outerRadius = R_o, shearThickness = 0\<rparr>
        else
          \<lparr>area = pi * (R_o ^ 2 - R_i ^ 2),
           inertia = (pi / 4) * (R_o ^ 4 - R_i ^ 4),
           polarInertia = (pi / 2) * (R_o ^ 4 - R_i ^ 4),
           outerRadius = R_o,
           shearThickness = R_o - R_i\<rparr>)
     else if sectionType = ''iBeam'' then
       (let h = iBeamDepthSI d; bf = iBeamFlangeWidthSI d;
            tf = iBeamFlangeThickSI d; tw = iBeamWebThickSI d;
            I = (bf * h ^ 3 - (bf - tw) * (h - 2 * tf) ^ 3) / 12 in
        \<lparr>area = 2 * bf * tf + tw * (h - 2 * tf),
         inertia = I,
         polarInertia = I,
         outerRadius = h / 2,
         shearThickness = tw\<rparr>)
     else
       \<lparr>area = 0, inertia = 0, polarInertia = 0, outerRadius = 0, shearThickness = 0\<rparr>)"

section \<open>First moment of area\<close>

text \<open>
  \<^verbatim>\<open>Q_point\<close> of App.jsx, with the ordinate \<open>pointYSI\<close> as an argument. The result is a
  \<open>jsnum\<close> because two branches go through \<^verbatim>\<open>Math.pow(..., 1.5)\<close>.
\<close>

definition Q_point :: "string \<Rightarrow> dims \<Rightarrow> real \<Rightarrow> jsnum" where
  "Q_point sectionType d pointYSI =
    (let yAbs = \<bar>pointYSI\<bar> in
     if sectionType = ''rectangle'' then
       (let a = rectHeightSI d / 2 in
        if yAbs > a then Fin 0
        else Fin ((rectWidthSI d / 2) * (a ^ 2 - pointYSI ^ 2)))
     else if sectionType = ''circle'' then
       (let r = circleDiameterSI d / 2 in
        if yAbs > r then Fin 0
        else js_mul (Fin (2 / 3)) (Math_pow15 (r * r - pointYSI * pointYSI)))
     else if sectionType = ''hollowCircle'' then
       (let R_o = hollowOuterSI d; R_i = hollowInnerSI d in
        if yAbs > R_o then Fin 0
        else if yAbs \<le> R_i then
          js_mul (Fin (2 / 3))
            (js_sub (Math_pow15 (R_o * R_o - pointYSI * pointYSI))
                    (Math_pow15 (R_i * R_i - pointYSI * pointYSI)))
        else js_mul (Fin (2 / 3)) (Math_pow15 (R_o * R_o - pointYSI * pointYSI)))
     else if sectionType = ''iBeam'' then
       (let h = iBeamDepthSI d; tf = iBeamFlangeThickSI d;
            bf = iBeamFlangeWidthSI d; tw = iBeamWebThickSI d;
            halfDepth = h / 2 in
        if yAbs > halfDepth then Fin 0
        else if yAbs \<le> halfDepth - tf then
          (let Q_flange = bf * tf;
               webArea = tw * (halfDepth - tf - yAbs);
               webCentroid = (halfDepth - tf + yAbs) / 2 in
           Fin (Q_flange + webArea * webCentroid))
        else
          (let flangeHeightAbove = halfDepth - yAbs in
           Fin (bf * flangeHeightAbove * (flangeHeightAbove / 2))))
     else Fin 0)"

section \<open>Stresses\<close>

text \<open>
  The four stress constants of App.jsx. None of the divisions is guarded. The loads, the
  section properties, the first moment and the ordinate are arguments.
\<close>

definition axialStressSI :: "loadSet \<Rightarrow> sectionProperties \<Rightarrow> jsnum" where
  "axialStressSI l p = js_div (Fin (forceSI l)) (Fin (area p))"

definition bendingStressSI :: "loadSet \<Rightarrow> sectionProperties \<Rightarrow> real \<Rightarrow> jsnum" where
  "bendingStressSI l p pointYSI = js_div (Fin (momentSI l * pointYSI)) (Fin (inertia p))"

definition torsionalShearSI :: "loadSet \<Rightarrow> sectionProperties \<Rightarrow> real \<Rightarrow> jsnum" where
  "torsionalShearSI l p pointYSI =
     js_div (Fin (torqueSI l * \<bar>pointYSI\<bar>)) (Fin (polarInertia p))"

definition transverseShearSI :: "loadSet \<Rightarrow> sectionProperties \<Rightarrow> jsnum \<Rightarrow> jsnum" where
  "transverseShearSI l p Q =
     js_div (js_mul (Fin (shearForceSI l)) Q) (Fin (inertia p * shearThickness p))"

text \<open>The four constants as one result, in the argument order of the interface.\<close>

definition computeStresses ::
  "sectionProperties \<Rightarrow> jsnum \<Rightarrow> loadSet \<Rightarrow> real \<Rightarrow> stressResult" where
  "computeStresses p Q l pointYSI =
     \<lparr>axial = axialStressSI l p,
      bending = bendingStressSI l p pointYSI,
      torsionalShear = torsionalShearSI l p pointYSI,
      transverseShear = transverseShearSI l p Q\<rparr>"

text \<open>The whole pipeline of the component for one set of inputs.\<close>

definition stresses_at :: "string \<Rightarrow> dims \<Rightarrow> loadSet \<Rightarrow> real \<Rightarrow> stressResult" where
  "stresses_at sectionType d l pointYSI =
     computeStresses (sectionProps sectionType d) (Q_point sectionType d pointYSI) l pointYSI"

section \<open>Valid dimensions\<close>

text \<open>
  The dimensions a section kind reads are positive; a hollow circle has its inner radius
  below the outer one; an I-beam has a web between its flanges.
\<close>

definition valid_dims :: "string \<Rightarrow> dims \<Rightarrow> bool" where
  "valid_dims sectionType d =
    (if sectionType = ''rectangle'' then 0 < rectWidthSI d \<and> 0 < rectHeightSI d
     else if sectionType = ''circle'' then 0 < circleDiameterSI d
     else if sectionType = ''hollowCircle'' then
       0 < hollowInnerSI d \<and> hollowInnerSI d < hollowOuterSI d
     else if sectionType = ''iBeam'' then
       0 < iBeamDepthSI d \<and> 0 < iBeamFlangeWidthSI d \<and> 0 < iBeamFlangeThickSI d \<and>
       0 < iBeamWebThickSI d \<and> 2 * iBeamFlangeThickSI d < iBeamDepthSI d
     else False)"

text \<open>The form's initial state, in metres.\<close>

definition default_dims :: dims where
  "default_dims =
     \<lparr>rectWidthSI = 5 / 100, rectHeightSI = 1 / 10, circleDiameterSI = 8 / 100,
      hollowOuterSI = 8 / 100, hollowInnerSI = 4 / 100,
      iBeamDepthSI = 2 / 10, iBeamFlangeWidthSI = 1 / 10,
      iBeamFlangeThickSI = 2 / 100, iBeamWebThickSI = 1 / 100\<rparr>"

text \<open>A hollow circle whose inner radius exceeds the outer one.\<close>

definition degenerate_hollow :: dims where
  "degenerate_hollow = default_dims\<lparr>hollowOuterSI := 4 / 100, hollowInnerSI := 8 / 100\<rparr>"

text \<open>An I-beam, 8 deep, whose flanges are 3 thick.\<close>

definition deep_flange_iBeam :: dims where
  "deep_flange_iBeam = default_dims\<lparr>iBeamDepthSI := 8, iBeamFlangeWidthSI := 1,
     iBeamFlangeThickSI := 3, iBeamWebThickSI := 1\<rparr>"

text \<open>The form's initial loads, in newtons and newton metres.\<close>

definition default_loads :: loadSet where
  "default_loads = \<lparr>forceSI = 1000, momentSI = 1000, torqueSI = 1000, shearForceSI = 500\<rparr>"

section \<open>Binary64 arithmetic\<close>

text \<open>
  The second reading of the arithmetic: every operation returns the double nearest to
  its exact result (ties to the even mantissa), an infinity when that result is at or
  beyond the overflow threshold, and 0 when it is below half the smallest subnormal.
  A finite double is still a \<open>Fin\<close> of its real value, and zero is unsigned.
\<close>

text \<open>Rounding a real to an integer, ties to even.\<close>

definition rne :: "real \<Rightarrow> int" where
  "rne r = (let f = \<lfloor>r\<rfloor> in
     if r - of_int f < 1 / 2 then f
     else if r - of_int f > 1 / 2 then f + 1
     else if even f then f else f + 1)"

text \<open>The binary exponent of a real, not below that of the subnormal range.\<close>

definition expo :: "real \<Rightarrow> int" where
  "expo x = max \<lfloor>log 2 \<bar>x\<bar>\<rfloor> (- 1022)"

text \<open>Rounding to 53 significant bits, with no bound on the exponent from above.\<close>

definition round53 :: "real \<Rightarrow> real" where
  "round53 x = of_int (rne (x / 2 powi (expo x - 52))) * 2 powi (expo x - 52)"

text \<open>
  The largest finite double, the least magnitude that rounds to an infinity (half an ulp
  above it), and the smallest positive double.
\<close>

definition max_double :: real where
  "max_double = (2 ^ 53 - 1) * 2 powi 971"

definition overflow_threshold :: real where
  "overflow_threshold = (2 ^ 54 - 1) * 2 powi 970"

definition min_subnormal :: real where
  "min_subnormal = 2 powi (- 1074)"

definition to_double :: "real \<Rightarrow> jsnum" where
  "to_double x =
     (if overflow_threshold \<le> \<bar>x\<bar> then signed_inf (0 < x) else Fin (round53 x))"

text \<open>A real is a double when rounding leaves it as it is.\<close>

definition is_double :: "real \<Rightarrow> bool" where
  "is_double x = (to_double x = Fin x)"

fun rnd_js :: "jsnum \<Rightarrow> jsnum" where
  "rnd_js (Fin x) = to_double x"
| "rnd_js PInf = PInf"
| "rnd_js NInf = NInf"
| "rnd_js NaN = NaN"

text \<open>The four operators: the exact result, rounded.\<close>

definition fl_add :: "jsnum \<Rightarrow> jsnum \<Rightarrow> jsnum" where
  "fl_add a b = rnd_js (js_add a b)"

definition fl_sub :: "jsnum \<Rightarrow> jsnum \<Rightarrow> jsnum" where
  "fl_sub a b = rnd_js (js_sub a b)"

definition fl_mul :: "jsnum \<Rightarrow> jsnum \<Rightarrow> jsnum" where
  "fl_mul a b = rnd_js (js_mul a b)"

definition fl_div :: "jsnum \<Rightarrow> jsnum \<Rightarrow> jsnum" where
  "fl_div a b = rnd_js (js_div a b)"

text \<open>
  The comparisons \<^verbatim>\<open><\<close> and \<^verbatim>\<open><=\<close>; \<^verbatim>\<open>a > b\<close> is \<open>js_less b a\<close> and \<^verbatim>\<open>a >= b\<close> is
  \<open>js_le b a\<close>. Every comparison with NaN is false.
\<close>

fun js_less :: "jsnum \<Rightarrow> jsnum \<Rightarrow> bool" where
  "js_less (Fin x) (Fin y) = (x < y)"
| "js_less NaN b = False"
| "js_less a NaN = False"
| "js_less PInf b = False"
| "js_less a NInf = False"
| "js_less (Fin x) PInf = True"
| "js_less NInf (Fin y) = True"
| "js_less NInf PInf = True"

fun js_le :: "jsnum \<Rightarrow> jsnum \<Rightarrow> bool" where
  "js_le (Fin x) (Fin y) = (x \<le> y)"
| "js_le NaN b = False"
| "js_le a NaN = False"
| "js_le NInf b = True"
| "js_le a PInf = True"
| "js_le PInf b = False"
| "js_le a NInf = False"

text \<open>
  \<^verbatim>\<open>Math.pow\<close> with the exponents 2, 3 and 4, and with the exponent 1.5, taken to return
  the double nearest to the exact power; \<^verbatim>\<open>Math.PI\<close>, the double nearest to pi.
\<close>

definition Math_pow_nat :: "jsnum \<Rightarrow> nat \<Rightarrow> jsnum" where
  "Math_pow_nat a n =
     (if n = 0 then Fin 1
      else case a of
        Fin x \<Rightarrow> to_double (x ^ n)
      | PInf \<Rightarrow> PInf
      | NInf \<Rightarrow> (if even n then PInf else NInf)
      | NaN \<Rightarrow> NaN)"

definition Math_pow15_d :: "jsnum \<Rightarrow> jsnum" where
  "Math_pow15_d a =
     (case a of
        Fin x \<Rightarrow> (if x < 0 then NaN else to_double (x powr (3 / 2)))
      | PInf \<Rightarrow> PInf
      | NInf \<Rightarrow> PInf
      | NaN \<Rightarrow> NaN)"

definition Math_PI :: real where
  "Math_PI = 884279719003555 / 2 ^ 48"

text \<open>A value that is not negative: a finite number from 0 upwards, or the positive infinity.\<close>

fun nn :: "jsnum \<Rightarrow> bool" where
  "nn (Fin x) = (0 \<le> x)"
| "nn PInf = True"
| "nn NInf = False"
| "nn NaN = False"

definition nonneg_or_NaN :: "jsnum \<Rightarrow> bool" where
  "nonneg_or_NaN a = (a = NaN \<or> js_le (Fin 0) a)"

section \<open>The component in binary64 arithmetic\<close>

text \<open>
  \<^verbatim>\<open>sectionProps\<close>, \<^verbatim>\<open>Q_point\<close> and the four stress constants of App.jsx once more,
  operator by operator in the order JavaScript evaluates them, with the rounded
  operations. The dimension and load fields hold the values of the input doubles.
\<close>

record sectionProperties_d =
  area_d :: jsnum
  inertia_d :: jsnum
  polarInertia_d :: jsnum
  outerRadius_d :: jsnum
  shearThickness_d :: jsnum

definition sectionProps_d :: "string \<Rightarrow> dims \<Rightarrow> sectionProperties_d" where
  "sectionProps_d sectionType d =
    (if sectionType = ''rectangle'' then
       (let w = Fin (rectWidthSI d); h = Fin (rectHeightSI d) in
        \<lparr>area_d = fl_mul w h,
         inertia_d = fl_div (fl_mul w (Math_pow_nat h 3)) (Fin 12),
         polarInertia_d = fl_div (fl_mul w (Math_pow_nat h 3)) (Fin 3),
         outerRadius_d = fl_div h (Fin 2),
         shearThickness_d = w\<rparr>)
     else if sectionType = ''circle'' then
       (let dia = Fin (circleDiameterSI d); r = fl_div dia (Fin 2) in
        \<lparr>area_d = fl_mul (Fin Math_PI) (Math_pow_nat r 2),
         inertia_d = fl_div (fl_mul (Fin Math_PI) (Math_pow_nat r 4)) (Fin 4),
         polarInertia_d = fl_div (fl_mul (Fin Math_PI) (Math_pow_nat r 4)) (Fin 2),
         outerRadius_d = r,
         shearThickness_d = dia\<rparr>)
     else if sectionType = ''hollowCircle'' then
       (let R_o = Fin (hollowOuterSI d); R_i = Fin (hollowInnerSI d) in
        if js_le R_o R_i then
          \<lparr>area_d = Fin 0, inertia_d = Fin 0, polarInertia_d = Fin 0,
           outerRadius_d = R_o, shearThickness_d = Fin 0\<rparr>
        else
          \<lparr>area_d = fl_mul (Fin Math_PI) (fl_sub (Math_pow_nat R_o 2) (Math_pow_nat R_i 2)),
           inertia_d = fl_mul (fl_div (Fin Math_PI) (Fin 4))
             (fl_sub (Math_pow_nat R_o 4) (Math_pow_nat R_i 4)),
           polarInertia_d = fl_mul (fl_div (Fin Math_PI) (Fin 2))
             (fl_sub (Math_pow_nat R_o 4) (Math_pow_nat R_i 4)),
           outerRadius_d = R_o,
           shearThickness_d = fl_sub R_o R_i\<rparr>)
     else if sectionType = ''iBeam'' then
       (let h = Fin (iBeamDepthSI d); bf = Fin (iBeamFlangeWidthSI d);
            tf = Fin (iBeamFlangeThickSI d); tw = Fin (iBeamWebThickSI d);
            I = fl_div
                  (fl_sub (fl_mul bf (Math_pow_nat h 3))
                     (fl_mul (fl_sub bf tw)
                        (Math_pow_nat (fl_sub h (fl_mul (Fin 2) tf)) 3)))
                  (Fin 12) in
        \<lparr>area_d = fl_add (fl_mul (fl_mul (Fin 2) bf) tf)
                    (fl_mul tw (fl_sub h (fl_mul (Fin 2) tf))),
         inertia_d = I,
         polarInertia_d = I,
         outerRadius_d = fl_div h (Fin 2),
         shearThickness_d = tw\<rparr>)
     else
       \<lparr>area_d = Fin 0, inertia_d = Fin 0, polarInertia_d = Fin 0,
        outerRadius_d = Fin 0, shearThickness_d = Fin 0\<rparr>)"

definition Q_point_d :: "string \<Rightarrow> dims \<Rightarrow> real \<Rightarrow> jsnum" where
  "Q_point_d sectionType d pointYSI =
    (let y = Fin pointYSI; yAbs = Fin \<bar>pointYSI\<bar> in
     if sectionType = ''rectangle'' then
       (let a = fl_div (Fin (rectHeightSI d)) (Fin 2) in
        if js_less a yAbs then Fin 0
        else fl_mul (fl_div (Fin (rectWidthSI d)) (Fin 2))
               (fl_sub (Math_pow_nat a 2) (Math_pow_nat y 2)))
     else if sectionType = ''circle'' then
       (let r = fl_div (Fin (circleDiameterSI d)) (Fin 2) in
        if js_less r yAbs then Fin 0
        else fl_mul (fl_div (Fin 2) (Fin 3))
               (Math_pow15_d (fl_sub (fl_mul r r) (fl_mul y y))))
     else if sectionType = ''hollowCircle'' then
       (let R_o = Fin (hollowOuterSI d); R_i = Fin (hollowInnerSI d) in
        if js_less R_o yAbs then Fin 0
        else if js_le yAbs R_i then
          fl_mul (fl_div (Fin 2) (Fin 3))
            (fl_sub (Math_pow15_d (fl_sub (fl_mul R_o R_o) (fl_mul y y)))
                    (Math_pow15_d (fl_sub (fl_mul R_i R_i) (fl_mul y y))))
        else fl_mul (fl_div (Fin 2) (Fin 3))
               (Math_pow15_d (fl_sub (fl_mul R_o R_o) (fl_mul y y))))
     else if sectionType = ''iBeam'' then
       (let h = Fin (iBeamDepthSI d); tf = Fin (iBeamFlangeThickSI d);
            bf = Fin (iBeamFlangeWidthSI d); tw = Fin (iBeamWebThickSI d);
            halfDepth = fl_div h (Fin 2) in
        if js_less halfDepth yAbs then Fin 0
        else if js_le yAbs (fl_sub halfDepth tf) then
          (let Q_flange = fl_mul bf tf;
               webArea = fl_mul tw (fl_sub (fl_sub halfDepth tf) yAbs);
               webCentroid = fl_div (fl_add (fl_sub halfDepth tf) yAbs) (Fin 2) in
           fl_add Q_flange (fl_mul webArea webCentroid))
        else
          (let flangeHeightAbove = fl_sub halfDepth yAbs in
           fl_mul (fl_mul bf flangeHeightAbove) (fl_div flangeHeightAbove (Fin 2))))
     else Fin 0)"

definition axialStressSI_d :: "loadSet \<Rightarrow> sectionProperties_d \<Rightarrow> jsnum" where
  "axialStressSI_d l p = fl_div (Fin (forceSI l)) (area_d p)"

definition bendingStressSI_d :: "loadSet \<Rightarrow> sectionProperties_d \<Rightarrow> real \<Rightarrow> jsnum" where
  "bendingStressSI_d l p pointYSI =
     fl_div (fl_mul (Fin (momentSI l)) (Fin pointYSI)) (inertia_d p)"

definition torsionalShearSI_d :: "loadSet \<Rightarrow> sectionProperties_d \<Rightarrow> real \<Rightarrow> jsnum" where
  "torsionalShearSI_d l p pointYSI =
     fl_div (fl_mul (Fin (torqueSI l)) (Fin \<bar>pointYSI\<bar>)) (polarInertia_d p)"

definition transverseShearSI_d :: "loadSet \<Rightarrow> sectionProperties_d \<Rightarrow> jsnum \<Rightarrow> jsnum" where
  "transverseShearSI_d l p Q =
     fl_div (fl_mul (Fin (shearForceSI l)) Q) (fl_mul (inertia_d p) (shearThickness_d p))"

definition stresses_at_d :: "string \<Rightarrow> dims \<Rightarrow> loadSet \<Rightarrow> real \<Rightarrow> stressResult" where
  "stresses_at_d sectionType d l pointYSI =
     (let p = sectionProps_d sectionType d; Q = Q_point_d sectionType d pointYSI in
      \<lparr>axial = axialStressSI_d l p,
       bending = bendingStressSI_d l p pointYSI,
       torsionalShear = torsionalShearSI_d l p pointYSI,
       transverseShear = transverseShearSI_d l p Q\<rparr>)"

text \<open>The half depth of the I-beam and the ordinate of its flange root, as computed.\<close>

definition halfDepth_d :: "dims \<Rightarrow> jsnum" where
  "halfDepth_d d = fl_div (Fin (iBeamDepthSI d)) (Fin 2)"

definition flangeRoot_d :: "dims \<Rightarrow> jsnum" where
  "flangeRoot_d d = fl_sub (halfDepth_d d) (Fin (iBeamFlangeThickSI d))"

text \<open>All nine dimension fields hold doubles.\<close>

definition double_dims :: "dims \<Rightarrow> bool" where
  "double_dims d =
     (is_double (rectWidthSI d) \<and> is_double (rectHeightSI d) \<and>
      is_double (circleDiameterSI d) \<and> is_double (hollowOuterSI d) \<and>
      is_double (hollowInnerSI d) \<and> is_double (iBeamDepthSI d) \<and>
      is_double (iBeamFlangeWidthSI d) \<and> is_double (iBeamFlangeThickSI d) \<and>
      is_double (iBeamWebThickSI d))"

text \<open>Dimensions that are binary fractions, in metres.\<close>

definition dyadic_dims :: dims where
  "dyadic_dims =
     \<lparr>rectWidthSI = 1 / 16, rectHeightSI = 1 / 8, circleDiameterSI = 1 / 8,
      hollowOuterSI = 1 / 8, hollowInnerSI = 1 / 16,
      iBeamDepthSI = 1 / 4, iBeamFlangeWidthSI = 1 / 8,
      iBeamFlangeThickSI = 1 / 32, iBeamWebThickSI = 1 / 64\<rparr>"

text \<open>
  The I-beam h = 0.3, bf = 0.1, tf = 0.02, tw = 0.01: each field is the double that
  \<^verbatim>\<open>Number\<close> returns for that decimal.
\<close>

definition decimal_iBeam :: dims where
  "decimal_iBeam = dyadic_dims\<lparr>
     iBeamDepthSI := 5404319552844595 / 2 ^ 54,
     iBeamFlangeWidthSI := 3602879701896397 / 2 ^ 55,
     iBeamFlangeThickSI := 5764607523034235 / 2 ^ 58,
     iBeamWebThickSI := 5764607523034235 / 2 ^ 59\<rparr>"

text \<open>The form's initial I-beam, h = 0.2, bf = 0.1, tf = 0.02, tw = 0.01, in doubles.\<close>

definition decimal_default_iBeam :: dims where
  "decimal_default_iBeam = dyadic_dims\<lparr>
     iBeamDepthSI := 3602879701896397 / 2 ^ 54,
     iBeamFlangeWidthSI := 3602879701896397 / 2 ^ 55,
     iBeamFlangeThickSI := 5764607523034235 / 2 ^ 58,
     iBeamWebThickSI := 5764607523034235 / 2 ^ 59\<rparr>"

text \<open>An I-beam whose depth cubed is beyond the largest double.\<close>

definition huge_iBeam :: dims where
  "huge_iBeam = dyadic_dims\<lparr>iBeamDepthSI := 2 ^ 343, iBeamFlangeWidthSI := 2,
     iBeamFlangeThickSI := 2 ^ 340, iBeamWebThickSI := 1\<rparr>"

text \<open>A rectangle whose height cubed is below the smallest double, and one whose height
  cubed is beyond the largest.\<close>

definition tiny_rectangle :: dims where
  "tiny_rectangle = dyadic_dims\<lparr>rectWidthSI := 1 / 2 ^ 400, rectHeightSI := 1 / 2 ^ 400\<rparr>"

definition big_rectangle :: dims where
  "big_rectangle = dyadic_dims\<lparr>rectWidthSI := 2 ^ 600, rectHeightSI := 2 ^ 600\<rparr>"

section \<open>Auxiliary facts\<close>

lemma js_div_zero_not_finite: "\<not> isFinite (js_div x (Fin 0))"
  by (cases x) (simp_all add: signed_inf_def)

lemma abs_le_imp_square_le:
  fixes y R :: real
  assumes "\<bar>y\<bar> \<le> R"
  shows "y * y \<le> R * R"
proof -
  have "\<bar>y\<bar> * \<bar>y\<bar> \<le> R * R"
    using assms by (intro mult_mono) auto
  then show ?thesis by simp
qed

lemma abs_eq_imp_square_eq:
  fixes y R :: real
  assumes "\<bar>y\<bar> = R"
  shows "y * y = R * R"
proof -
  have "\<bar>y\<bar> * \<bar>y\<bar> = y * y" by simp
  then show ?thesis using assms by simp
qed

lemma valid_dims_cases:
  assumes "valid_dims st d"
  obtains
    (rectangle) "st = ''rectangle''" "0 < rectWidthSI d" "0 < rectHeightSI d"
  | (circle) "st = ''circle''" "0 < circleDiameterSI d"
  | (hollowCircle) "st = ''hollowCircle''" "0 < hollowInnerSI d"
      "hollowInnerSI d < hollowOuterSI d"
  | (iBeam) "st = ''iBeam''" "0 < iBeamDepthSI d" "0 < iBeamFlangeWidthSI d"
      "0 < iBeamFlangeThickSI d" "0 < iBeamWebThickSI d"
      "2 * iBeamFlangeThickSI d < iBeamDepthSI d"
  using assms unfolding valid_dims_def by (auto split: if_splits)

section \<open>Rounding to the nearest integer\<close>

lemma rne_of_int: "rne (of_int n) = n"
  by (simp add: rne_def)

lemma rne_bounds: "r - 1 / 2 \<le> of_int (rne r)" "of_int (rne r) \<le> r + 1 / 2"
  unfolding rne_def Let_def by (auto split: if_splits) linarith+

lemma rne_le_int: "r < of_int n + 1 / 2 \<Longrightarrow> rne r \<le> n"
  unfolding rne_def Let_def by (auto split: if_splits) linarith+

lemma rne_ge_int: "of_int n - 1 / 2 < r \<Longrightarrow> n \<le> rne r"
  unfolding rne_def Let_def by (auto split: if_splits) linarith+

lemma rne_mono:
  assumes "r \<le> s"
  shows "rne r \<le> rne s"
proof (rule ccontr)
  assume "\<not> rne r \<le> rne s"
  then have lt: "rne s + 1 \<le> rne r" by simp
  have a: "of_int (rne r) \<le> r + 1 / 2" and b: "s - 1 / 2 \<le> of_int (rne s)"
    by (rule rne_bounds)+
  have "real_of_int (rne s) + 1 \<le> of_int (rne r)" using lt by linarith
  then have "r = s" using a b assms by linarith
  then have "rne r = rne s" by simp
  then show False using lt by simp
qed

lemma rne_minus: "rne (- r) = - rne r"
proof (cases "r \<in> \<int>")
  case True
  then obtain n where "r = of_int n" by (auto elim: Ints_cases)
  then show ?thesis by (metis of_int_minus rne_of_int)
next
  case False
  then have "of_int \<lfloor>r\<rfloor> \<noteq> r" by (metis Ints_of_int)
  then have "of_int \<lfloor>r\<rfloor> < r" by linarith
  then have fl: "\<lfloor>- r\<rfloor> = - \<lfloor>r\<rfloor> - 1"
    by (intro floor_unique) (simp_all, linarith)
  have fr: "r - of_int \<lfloor>r\<rfloor> < 1" "0 \<le> r - of_int \<lfloor>r\<rfloor>" by linarith+
  show ?thesis
    unfolding rne_def Let_def fl using fr
    by (auto split: if_splits simp: algebra_simps)
qed

lemma rne_nonneg: "0 \<le> r \<Longrightarrow> 0 \<le> rne r"
  using rne_mono [of 0 r] by (simp add: rne_def)

section \<open>Rounding to 53 bits\<close>

lemma expo_ge: "- 1022 \<le> expo x"
  by (simp add: expo_def)

lemma expo_minus: "expo (- x) = expo x"
  by (simp add: expo_def)

lemma expo_abs: "expo \<bar>x\<bar> = expo x"
  by (simp add: expo_def)

lemma floor_log2_bounds:
  assumes "0 < x"
  shows "2 powi \<lfloor>log 2 x\<rfloor> \<le> x" and "x < 2 powi (\<lfloor>log 2 x\<rfloor> + 1)"
proof -
  define k where "k = \<lfloor>log 2 x\<rfloor>"
  have a: "(2::real) powr real_of_int k = 2 powi k"
    and b: "(2::real) powr real_of_int (k + 1) = 2 powi (k + 1)"
    by (rule powr_real_of_int'; simp)+
  have "2 powr real_of_int k \<le> x \<and> x < 2 powr real_of_int (k + 1)"
    using floor_log_eq_powr_iff [of x 2 k] assms by (simp add: k_def)
  then show "2 powi \<lfloor>log 2 x\<rfloor> \<le> x" and "x < 2 powi (\<lfloor>log 2 x\<rfloor> + 1)"
    unfolding a b by (simp_all add: k_def)
qed

lemma expo_upper:
  assumes "0 < x"
  shows "x < 2 powi (expo x + 1)"
proof -
  have "x < 2 powi (\<lfloor>log 2 x\<rfloor> + 1)" using assms by (rule floor_log2_bounds)
  also have "\<dots> \<le> 2 powi (expo x + 1)"
    using assms by (intro power_int_increasing) (simp_all add: expo_def)
  finally show ?thesis .
qed

lemma expo_lower:
  assumes "0 < x" and "- 1022 < expo x"
  shows "2 powi expo x \<le> x"
proof -
  have "expo x = \<lfloor>log 2 x\<rfloor>" using assms by (simp add: expo_def max_def split: if_splits)
  then show ?thesis using floor_log2_bounds(1) [OF assms(1)] by simp
qed

lemma expo_mono:
  assumes "0 < x" and "x \<le> y"
  shows "expo x \<le> expo y"
proof -
  have "log 2 x \<le> log 2 y" using assms by simp
  then have "\<lfloor>log 2 x\<rfloor> \<le> \<lfloor>log 2 y\<rfloor>" by (rule floor_mono)
  moreover have "\<bar>x\<bar> = x" "\<bar>y\<bar> = y" using assms by simp_all
  ultimately show ?thesis unfolding expo_def by (metis max.mono order_refl)
qed

lemma expo_eqI:
  assumes "2 powi k \<le> x" and "x < 2 powi (k + 1)" and "- 1022 \<le> k"
  shows "expo x = k"
proof -
  have "(0::real) < 2 powi k" by simp
  then have pos: "0 < x" using assms(1) by linarith
  have a: "(2::real) powr real_of_int k = 2 powi k"
    and b: "(2::real) powr real_of_int (k + 1) = 2 powi (k + 1)"
    by (rule powr_real_of_int'; simp)+
  have "2 powr real_of_int k \<le> x \<and> x < 2 powr real_of_int (k + 1)"
    unfolding a b using assms(1,2) by simp
  then have "\<lfloor>log 2 x\<rfloor> = k"
    using floor_log_eq_powr_iff [of x 2 k] pos by simp
  then show ?thesis using pos assms(3) by (simp add: expo_def)
qed

lemma round53_zero: "round53 0 = 0"
  by (simp add: round53_def rne_def)

lemma round53_minus: "round53 (- x) = - round53 x"
  by (simp add: round53_def expo_minus rne_minus)

lemma round53_nonneg:
  assumes "0 \<le> x"
  shows "0 \<le> round53 x"
proof -
  have "0 \<le> x / 2 powi (expo x - 52)" using assms by simp
  then have "0 \<le> rne (x / 2 powi (expo x - 52))" by (rule rne_nonneg)
  then show ?thesis by (simp add: round53_def)
qed

lemma two_powi_split: "(2::real) powi (e + 1) = 2 ^ 53 * 2 powi (e - 52)"
proof -
  have "e + 1 = 53 + (e - 52)" by simp
  then have "(2::real) powi (e + 1) = 2 powi (53 + (e - 52))" by (rule arg_cong)
  also have "\<dots> = 2 powi 53 * 2 powi (e - 52)" by (rule power_int_add) simp
  finally show ?thesis by simp
qed

lemma two_powi_split52: "(2::real) powi e = 2 ^ 52 * 2 powi (e - 52)"
proof -
  have "e = 52 + (e - 52)" by simp
  then have "(2::real) powi e = 2 powi (52 + (e - 52))" by (rule arg_cong)
  also have "\<dots> = 2 powi 52 * 2 powi (e - 52)" by (rule power_int_add) simp
  finally show ?thesis by simp
qed

text \<open>A positive real and its rounding lie in the same binade, ends included.\<close>

lemma round53_upper:
  assumes "0 < x"
  shows "round53 x \<le> 2 powi (expo x + 1)"
proof -
  define u :: real where "u = 2 powi (expo x - 52)"
  have u: "0 < u" by (simp add: u_def)
  have "x < 2 ^ 53 * u" using expo_upper [OF assms] by (simp add: two_powi_split u_def)
  then have "x / u \<le> of_int (2 ^ 53)" using u by (simp add: pos_divide_le_eq less_imp_le)
  then have "rne (x / u) \<le> rne (of_int (2 ^ 53))" by (rule rne_mono)
  then have "rne (x / u) \<le> 2 ^ 53" by (simp only: rne_of_int)
  then have "real_of_int (rne (x / u)) \<le> real_of_int (2 ^ 53)" by (simp only: of_int_le_iff)
  then have "real_of_int (rne (x / u)) \<le> 2 ^ 53" by simp
  then have "of_int (rne (x / u)) * u \<le> 2 ^ 53 * u"
    using u by (simp add: mult_right_mono)
  then show ?thesis by (simp add: round53_def two_powi_split u_def)
qed

lemma round53_lower:
  assumes "0 < x" and "2 powi expo x \<le> x"
  shows "2 powi expo x \<le> round53 x"
proof -
  define u :: real where "u = 2 powi (expo x - 52)"
  have u: "0 < u" by (simp add: u_def)
  have "2 ^ 52 * u \<le> x" using assms(2) two_powi_split52 [of "expo x"] by (simp add: u_def)
  then have "of_int (2 ^ 52) \<le> x / u" using u by (simp add: pos_le_divide_eq)
  then have "rne (of_int (2 ^ 52)) \<le> rne (x / u)" by (rule rne_mono)
  then have "2 ^ 52 \<le> rne (x / u)" by (simp only: rne_of_int)
  then have "real_of_int (2 ^ 52) \<le> real_of_int (rne (x / u))" by (simp only: of_int_le_iff)
  then have "2 ^ 52 \<le> real_of_int (rne (x / u))" by simp
  then have "2 ^ 52 * u \<le> of_int (rne (x / u)) * u"
    using u by (simp add: mult_right_mono)
  then show ?thesis using two_powi_split52 [of "expo x"] by (simp add: round53_def u_def)
qed

text \<open>Rounding is monotone.\<close>

lemma round53_mono_pos:
  assumes "0 < x" and "x \<le> y"
  shows "round53 x \<le> round53 y"
proof (cases "expo x = expo y")
  case True
  have "x / 2 powi (expo y - 52) \<le> y / 2 powi (expo y - 52)"
    using assms(2) by (simp add: divide_right_mono)
  then have "rne (x / 2 powi (expo y - 52)) \<le> rne (y / 2 powi (expo y - 52))"
    by (rule rne_mono)
  then have "real_of_int (rne (x / 2 powi (expo y - 52))) \<le>
      real_of_int (rne (y / 2 powi (expo y - 52)))" by linarith
  then show ?thesis by (simp add: round53_def True mult_right_mono)
next
  case False
  have y: "0 < y" using assms by linarith
  have lt: "expo x < expo y" using expo_mono [OF assms] False by linarith
  then have "- 1022 < expo y" using expo_ge [of x] by linarith
  then have low: "2 powi expo y \<le> round53 y"
    using y by (intro round53_lower expo_lower)
  have "round53 x \<le> 2 powi (expo x + 1)" using assms(1) by (rule round53_upper)
  also have "\<dots> \<le> 2 powi expo y"
    using lt by (intro power_int_increasing) simp_all
  finally show ?thesis using low by linarith
qed

lemma round53_mono:
  assumes "x \<le> y"
  shows "round53 x \<le> round53 y"
proof -
  consider "0 < x" | "x \<le> 0" "0 \<le> y" | "y < 0" by linarith
  then show ?thesis
  proof cases
    case 1
    then show ?thesis using assms by (rule round53_mono_pos)
  next
    case 2
    have "0 \<le> round53 (- x)" using 2(1) by (intro round53_nonneg) simp
    then have "round53 x \<le> 0" by (simp add: round53_minus)
    moreover have "0 \<le> round53 y" using 2(2) by (rule round53_nonneg)
    ultimately show ?thesis by linarith
  next
    case 3
    have "round53 (- y) \<le> round53 (- x)"
      using 3 assms by (intro round53_mono_pos) simp_all
    then show ?thesis by (simp add: round53_minus)
  qed
qed

text \<open>A number with at most 53 significant bits is not changed.\<close>

lemma round53_exact:
  assumes "\<bar>m\<bar> < 2 ^ 53" and "- 1074 \<le> e"
  shows "round53 (of_int m * 2 powi e) = of_int m * 2 powi e"
proof (cases "m = 0")
  case True
  then show ?thesis by (simp add: round53_zero)
next
  case False
  define x :: real where "x = of_int m * 2 powi e"
  define q where "q = expo x - 52"
  define d where "d = nat (e - q)"
  have ax: "\<bar>x\<bar> = of_int \<bar>m\<bar> * 2 powi e"
    by (simp add: x_def abs_mult)
  have pos: "0 < \<bar>x\<bar>" using False by (simp add: x_def)
  have "real_of_int \<bar>m\<bar> < real_of_int (2 ^ 53)"
    using assms(1) by (simp only: of_int_less_iff)
  then have "real_of_int \<bar>m\<bar> * 2 powi e < 2 ^ 53 * 2 powi e"
    by (simp add: mult_strict_right_mono)
  also have "\<dots> = 2 powi (53 + e)"
    using power_int_add [of "2::real" 53 e] by simp
  finally have lt: "\<bar>x\<bar> < 2 powi (53 + e)" by (simp add: ax)
  have q: "q \<le> e"
  proof (cases "expo x = - 1022")
    case True
    then show ?thesis using assms(2) by (simp add: q_def)
  next
    case False
    then have "- 1022 < expo \<bar>x\<bar>" using expo_ge [of x] by (simp add: expo_abs)
    then have "2 powi expo \<bar>x\<bar> \<le> \<bar>x\<bar>" using pos by (intro expo_lower)
    then have less: "(2::real) powi expo x < 2 powi (53 + e)" using lt by (simp add: expo_abs)
    have "expo x < 53 + e"
    proof (rule ccontr)
      assume "\<not> expo x < 53 + e"
      then have "(2::real) powi (53 + e) \<le> 2 powi expo x"
        by (intro power_int_increasing) simp_all
      then show False using less by linarith
    qed
    then show ?thesis by (simp add: q_def)
  qed
  have "e = int d + q" using q by (simp add: d_def)
  then have "(2::real) powi e = 2 powi (int d + q)" by (rule arg_cong)
  also have "\<dots> = 2 powi (int d) * 2 powi q" by (rule power_int_add) simp
  finally have pe: "(2::real) powi e = 2 ^ d * 2 powi q" by simp
  have "x / 2 powi q = of_int (m * 2 ^ d)"
    by (simp add: x_def pe)
  then have "rne (x / 2 powi q) = m * 2 ^ d" by (simp only: rne_of_int)
  then have "round53 x = of_int (m * 2 ^ d) * 2 powi q"
    by (simp add: round53_def q_def)
  also have "\<dots> = x" by (simp add: x_def pe)
  finally show ?thesis by (simp add: x_def)
qed

lemma round53_one_bit:
  assumes "- 1074 \<le> e"
  shows "round53 (2 powi e) = 2 powi e"
  using round53_exact [of 1 e] assms by simp

text \<open>Rounding twice is rounding once.\<close>

lemma round53_idem_pos:
  assumes "0 < x"
  shows "round53 (round53 x) = round53 x"
proof -
  define q where "q = expo x - 52"
  define n where "n = rne (x / 2 powi q)"
  have r: "round53 x = of_int n * 2 powi q" by (simp add: round53_def q_def n_def)
  have q: "- 1074 \<le> q" using expo_ge [of x] by (simp add: q_def)
  have n0: "0 \<le> n" unfolding n_def using assms by (intro rne_nonneg) simp
  have "round53 x \<le> 2 ^ 53 * 2 powi q"
    using round53_upper [OF assms] unfolding two_powi_split q_def .
  then have "real_of_int n * 2 powi q \<le> 2 ^ 53 * 2 powi q" unfolding r .
  then have "real_of_int n \<le> 2 ^ 53" by simp
  then have "real_of_int n \<le> real_of_int (2 ^ 53)" by simp
  then have n53: "n \<le> 2 ^ 53" by (simp only: of_int_le_iff)
  show ?thesis
  proof (cases "n = 2 ^ 53")
    case True
    have "round53 x = 2 powi (53 + q)"
      using power_int_add [of "2::real" 53 q] by (simp add: r True)
    moreover have "- 1074 \<le> 53 + q" using q by simp
    ultimately show ?thesis by (simp add: round53_one_bit)
  next
    case False
    then have "\<bar>n\<bar> < 2 ^ 53" using n0 n53 by simp
    then show ?thesis unfolding r using q by (rule round53_exact)
  qed
qed

lemma round53_idem: "round53 (round53 x) = round53 x"
proof -
  consider "0 < x" | "x = 0" | "0 < - x" by linarith
  then show ?thesis
  proof cases
    case 1
    then show ?thesis by (rule round53_idem_pos)
  next
    case 2
    then show ?thesis by (simp add: round53_zero)
  next
    case 3
    then have "round53 (round53 (- x)) = round53 (- x)" by (rule round53_idem_pos)
    then show ?thesis by (simp add: round53_minus)
  qed
qed

section \<open>Overflow and underflow\<close>

lemma round53_max_double: "round53 max_double = max_double"
  using round53_exact [of "2 ^ 53 - 1" 971] by (simp add: max_double_def)

lemma max_double_less_threshold: "max_double < overflow_threshold"
proof -
  have "(2::real) powi 971 = 2 * 2 powi 970"
    using power_int_add [of "2::real" 1 970] by simp
  then show ?thesis by (simp add: max_double_def overflow_threshold_def)
qed

lemma overflow_threshold_pos: "0 < overflow_threshold"
  by (simp add: overflow_threshold_def)

lemma round53_below_threshold_pos:
  assumes "0 \<le> x" and "x < overflow_threshold"
  shows "round53 x \<le> max_double"
proof (cases "x \<le> max_double")
  case True
  then have "round53 x \<le> round53 max_double" by (rule round53_mono)
  then show ?thesis by (simp add: round53_max_double)
next
  case False
  then have lo: "max_double < x" by simp
  have p971: "(2::real) powi 971 = 2 * 2 powi 970"
    using power_int_add [of "2::real" 1 970] by simp
  have p1023: "(2::real) powi 1023 = 2 ^ 53 * 2 powi 970"
    using power_int_add [of "2::real" 53 970] by simp
  have p1024: "(2::real) powi 1024 = 2 ^ 54 * 2 powi 970"
    using power_int_add [of "2::real" 54 970] by simp
  have pos970: "(0::real) < 2 powi 970" by simp
  have "(2::real) powi 1023 \<le> max_double"
    unfolding max_double_def p971 p1023 using pos970 by simp
  then have a: "2 powi 1023 \<le> x" using lo by linarith
  have "overflow_threshold < 2 powi 1024"
    unfolding overflow_threshold_def p1024 using pos970 by simp
  then have b: "x < 2 powi (1023 + 1)" using assms(2) by simp
  have e: "expo x = 1023" using a b by (rule expo_eqI) simp
  have "x / 2 powi 971 < of_int (2 ^ 53 - 1) + 1 / 2"
    using assms(2) unfolding overflow_threshold_def p971
    by (simp add: pos_divide_less_eq algebra_simps)
  then have "rne (x / 2 powi 971) \<le> 2 ^ 53 - 1" by (rule rne_le_int)
  then have "real_of_int (rne (x / 2 powi 971)) \<le> real_of_int (2 ^ 53 - 1)"
    by (simp only: of_int_le_iff)
  then have "real_of_int (rne (x / 2 powi 971)) * 2 powi 971 \<le> (2 ^ 53 - 1) * 2 powi 971"
    by (intro mult_right_mono) simp_all
  then show ?thesis by (simp add: round53_def e max_double_def)
qed

lemma round53_below_threshold:
  assumes "\<bar>x\<bar> < overflow_threshold"
  shows "\<bar>round53 x\<bar> \<le> max_double"
proof (cases "0 \<le> x")
  case True
  then have "round53 x \<le> max_double" using assms by (intro round53_below_threshold_pos) simp_all
  moreover have "0 \<le> round53 x" using True by (rule round53_nonneg)
  ultimately show ?thesis by simp
next
  case False
  then have "round53 (- x) \<le> max_double"
    using assms by (intro round53_below_threshold_pos) simp_all
  moreover have "0 \<le> round53 (- x)" using False by (intro round53_nonneg) simp
  ultimately show ?thesis by (simp add: round53_minus)
qed

lemma round53_underflow:
  assumes "\<bar>x\<bar> < 2 powi (- 1075)"
  shows "round53 x = 0"
proof (cases "x = 0")
  case True
  then show ?thesis by (simp add: round53_zero)
next
  case False
  have p: "(2::real) powi (- 1074) = 2 * 2 powi (- 1075)"
    using power_int_add [of "2::real" 1 "- 1075"] by simp
  have "\<lfloor>log 2 \<bar>x\<bar>\<rfloor> < - 1022"
  proof (rule ccontr)
    assume "\<not> \<lfloor>log 2 \<bar>x\<bar>\<rfloor> < - 1022"
    then have "(2::real) powi (- 1075) \<le> 2 powi \<lfloor>log 2 \<bar>x\<bar>\<rfloor>"
      by (intro power_int_increasing) simp_all
    also have "\<dots> \<le> \<bar>x\<bar>" using False by (intro floor_log2_bounds) simp
    finally show False using assms by simp
  qed
  then have e: "expo x = - 1022" by (simp add: expo_def)
  have "\<bar>x\<bar> / 2 powi (- 1074) < 1 / 2"
    using assms unfolding p by (simp add: pos_divide_less_eq)
  then have "\<bar>x / 2 powi (- 1074)\<bar> < 1 / 2" by (simp add: abs_divide)
  then have "rne (x / 2 powi (- 1074)) \<le> 0" and "0 \<le> rne (x / 2 powi (- 1074))"
    by (intro rne_le_int rne_ge_int; simp; linarith)+
  then have "rne (x / 2 powi (- 1074)) = 0" by simp
  then show ?thesis by (simp add: round53_def e)
qed

lemma min_subnormal_pos: "0 < min_subnormal"
  unfolding min_subnormal_def by (rule zero_less_power_int) simp

lemma round53_min_subnormal: "round53 min_subnormal = min_subnormal"
  unfolding min_subnormal_def by (rule round53_one_bit) simp

lemma round53_not_zero:
  assumes "min_subnormal \<le> \<bar>x\<bar>"
  shows "round53 x \<noteq> 0"
proof -
  have "round53 min_subnormal \<le> round53 \<bar>x\<bar>" using assms by (rule round53_mono)
  then have "min_subnormal \<le> round53 \<bar>x\<bar>" by (simp only: round53_min_subnormal)
  then have "0 < round53 \<bar>x\<bar>" using min_subnormal_pos by linarith
  then show ?thesis
    by (cases "0 \<le> x") (auto simp: abs_if round53_minus split: if_splits)
qed

lemma min_subnormal_le_half: "min_subnormal \<le> 1 / 2"
proof -
  have "(2::real) powi (- 1074) \<le> 2 powi (- 1)" by (intro power_int_increasing) simp_all
  moreover have "(2::real) powi (- 1) = 1 / 2" by simp
  ultimately show ?thesis by (simp only: min_subnormal_def)
qed

lemma four_less_threshold: "4 < overflow_threshold"
proof -
  have "(2::real) powi 3 \<le> 2 powi 970" by (intro power_int_increasing) simp_all
  moreover have "(1::real) * 2 powi 970 \<le> (2 ^ 54 - 1) * 2 powi 970"
    by (intro mult_right_mono) simp_all
  ultimately show ?thesis by (simp add: overflow_threshold_def)
qed

section \<open>Doubles and the comparisons\<close>

lemma js_le_zero_iff: "js_le (Fin 0) a = nn a"
  by (cases a) auto

lemma js_le_PInf: "js_le a PInf = (a \<noteq> NaN)"
  by (cases a) auto

lemma js_le_NInf: "js_le NInf a = (a \<noteq> NaN)"
  by (cases a) auto

lemma js_le_not_less: "js_le a b \<Longrightarrow> \<not> js_less b a"
  by (cases a; cases b) auto

lemma js_less_not_le: "js_less a b \<Longrightarrow> \<not> js_le b a"
  by (cases a; cases b) auto

lemma js_le_trans: "js_le a b \<Longrightarrow> js_le b c \<Longrightarrow> js_le a c"
  by (cases a; cases b; cases c) auto

lemma nn_not_NaN: "nn a \<Longrightarrow> a \<noteq> NaN"
  by (cases a) auto

lemma nonneg_or_NaN_iff: "nonneg_or_NaN a \<longleftrightarrow> a = NaN \<or> nn a"
  by (simp add: nonneg_or_NaN_def js_le_zero_iff)

lemma to_double_zero: "to_double 0 = Fin 0"
  using overflow_threshold_pos by (simp add: to_double_def round53_zero)

lemma to_double_not_NaN: "to_double x \<noteq> NaN"
  by (simp add: to_double_def signed_inf_def)

lemma to_double_nn:
  assumes "0 \<le> x"
  shows "nn (to_double x)"
proof (cases "overflow_threshold \<le> \<bar>x\<bar>")
  case True
  then have "0 < x" using assms overflow_threshold_pos by linarith
  then show ?thesis using True by (simp add: to_double_def signed_inf_def)
next
  case False
  then show ?thesis using assms by (simp add: to_double_def round53_nonneg)
qed

lemma to_double_mono:
  assumes "x \<le> y"
  shows "js_le (to_double x) (to_double y)"
proof -
  consider "overflow_threshold \<le> y" | "x \<le> - overflow_threshold"
    | "y < overflow_threshold" "- overflow_threshold < x" by linarith
  then show ?thesis
  proof cases
    case 1
    then have "to_double y = PInf"
      using overflow_threshold_pos by (simp add: to_double_def signed_inf_def)
    then show ?thesis by (simp add: js_le_PInf to_double_not_NaN)
  next
    case 2
    then have "to_double x = NInf"
      using overflow_threshold_pos by (simp add: to_double_def signed_inf_def)
    then show ?thesis by (simp add: js_le_NInf to_double_not_NaN)
  next
    case 3
    then have "\<bar>x\<bar> < overflow_threshold" "\<bar>y\<bar> < overflow_threshold"
      using assms by simp_all
    then show ?thesis using assms by (simp add: to_double_def round53_mono)
  qed
qed

lemma to_double_idem:
  assumes "to_double x = Fin v"
  shows "to_double v = Fin v"
proof -
  have lt: "\<bar>x\<bar> < overflow_threshold" and v: "v = round53 x"
    using assms by (auto simp: to_double_def signed_inf_def split: if_splits)
  have "\<bar>v\<bar> \<le> max_double" unfolding v using lt by (rule round53_below_threshold)
  then have "\<bar>v\<bar> < overflow_threshold" using max_double_less_threshold by linarith
  then show ?thesis by (simp add: to_double_def v round53_idem)
qed

lemma is_double_result: "to_double x = Fin v \<Longrightarrow> is_double v"
  unfolding is_double_def by (rule to_double_idem)

lemma to_double_minus: "to_double (- x) = js_neg (to_double x)"
  using overflow_threshold_pos by (auto simp: to_double_def round53_minus signed_inf_def)

lemma is_double_minus: "is_double x \<Longrightarrow> is_double (- x)"
  by (simp add: is_double_def to_double_minus)

lemma to_double_le_double:
  assumes "is_double b" and "x \<le> b"
  shows "js_le (to_double x) (Fin b)"
  using to_double_mono [OF assms(2)] assms(1) by (simp add: is_double_def)

lemma to_double_ge_double:
  assumes "is_double b" and "b \<le> x"
  shows "js_le (Fin b) (to_double x)"
  using to_double_mono [OF assms(2)] assms(1) by (simp add: is_double_def)

lemma is_double_dyadic:
  assumes "\<bar>m\<bar> < 2 ^ 53" and "- 1074 \<le> e" and "e \<le> 971"
  shows "is_double (of_int m * 2 powi e)"
proof -
  have "real_of_int \<bar>m\<bar> \<le> real_of_int (2 ^ 53 - 1)"
    using assms(1) by (simp only: of_int_le_iff)
  then have "real_of_int \<bar>m\<bar> * 2 powi e \<le> (2 ^ 53 - 1) * 2 powi e"
    by (intro mult_right_mono) simp_all
  also have "\<dots> \<le> (2 ^ 53 - 1) * 2 powi 971"
    using assms(3) by (intro mult_left_mono power_int_increasing) simp_all
  finally have "\<bar>of_int m * 2 powi e\<bar> \<le> max_double"
    by (simp add: abs_mult max_double_def)
  then have "\<bar>of_int m * 2 powi e\<bar> < overflow_threshold"
    using max_double_less_threshold by linarith
  then show ?thesis
    using round53_exact [OF assms(1,2)] by (simp add: is_double_def to_double_def)
qed

lemma to_double_overflow:
  assumes "overflow_threshold \<le> x"
  shows "to_double x = PInf"
  using assms overflow_threshold_pos by (simp add: to_double_def signed_inf_def)

lemma to_double_underflow:
  assumes "\<bar>x\<bar> < 2 powi (- 1075)"
  shows "to_double x = Fin 0"
proof -
  have "(2::real) powi (- 1075) \<le> 2 powi 970" by (intro power_int_increasing) simp_all
  also have "\<dots> \<le> overflow_threshold" by (simp add: overflow_threshold_def)
  finally have "\<bar>x\<bar> < overflow_threshold" using assms by linarith
  then show ?thesis using round53_underflow [OF assms] by (simp add: to_double_def)
qed

lemma to_double_not_zero:
  assumes "min_subnormal \<le> \<bar>x\<bar>"
  shows "to_double x \<noteq> Fin 0"
  using round53_not_zero [OF assms] by (simp add: to_double_def signed_inf_def)

text \<open>The rounding of a real whose binade is known.\<close>

lemma to_double_eval:
  assumes "2 powi k \<le> \<bar>x\<bar>" and "\<bar>x\<bar> < 2 powi (k + 1)" and "- 1022 \<le> k" and "k < 1023"
  shows "to_double x = Fin (of_int (rne (x / 2 powi (k - 52))) * 2 powi (k - 52))"
proof -
  have e: "expo x = k" using expo_eqI [OF assms(1-3)] by (simp add: expo_abs)
  have "(2::real) powi (k + 1) \<le> 2 powi 1023"
    using assms(4) by (intro power_int_increasing) simp_all
  also have "\<dots> \<le> max_double"
  proof -
    have "(2::real) powi 1023 = 2 ^ 52 * 2 powi 971"
      using power_int_add [of "2::real" 52 971] by simp
    also have "\<dots> \<le> (2 ^ 53 - 1) * 2 powi 971" by (intro mult_right_mono) simp_all
    finally show ?thesis by (simp only: max_double_def)
  qed
  finally have "\<bar>x\<bar> < overflow_threshold"
    using assms(2) max_double_less_threshold by linarith
  then show ?thesis by (simp add: to_double_def round53_def e)
qed

lemma to_double_pos_finite:
  assumes "min_subnormal \<le> x" and "x < overflow_threshold"
  obtains c where "0 < c" and "to_double x = Fin c"
proof -
  have x: "0 < x" using assms(1) min_subnormal_pos by linarith
  then have "round53 x \<noteq> 0" and "0 \<le> round53 x"
    using assms(1) by (simp_all add: round53_not_zero round53_nonneg)
  then have "0 < round53 x" by simp
  moreover have "to_double x = Fin (round53 x)" using assms(2) x by (simp add: to_double_def)
  ultimately show ?thesis using that by blast
qed

lemma Math_PI_bounds: "3 < Math_PI" "Math_PI < 4"
  by (simp_all add: Math_PI_def)

lemma Math_PI_fraction:
  assumes "k = 2 \<or> k = 4"
  obtains c where "0 < c" and "fl_div (Fin Math_PI) (Fin k) = Fin c"
proof -
  have "min_subnormal \<le> Math_PI / k" and "Math_PI / k < overflow_threshold"
    using assms Math_PI_bounds min_subnormal_le_half four_less_threshold by auto
  then obtain c where "0 < c" and "to_double (Math_PI / k) = Fin c"
    by (rule to_double_pos_finite)
  moreover have "fl_div (Fin Math_PI) (Fin k) = to_double (Math_PI / k)"
    using assms by (auto simp: fl_div_def)
  ultimately show ?thesis using that by simp
qed

section \<open>Signs of rounded results\<close>

lemma fl_mul_pos_nn:
  assumes "0 < x" and "nn b"
  shows "nn (fl_mul (Fin x) b)"
  using assms by (cases b) (auto simp: fl_mul_def to_double_nn signed_inf_def)

lemma fl_mul_nn_pos:
  assumes "nn a" and "0 < y"
  shows "nn (fl_mul a (Fin y))"
  using assms by (cases a) (auto simp: fl_mul_def to_double_nn signed_inf_def)

lemma fl_mul_pos_NaN:
  assumes "0 < x"
  shows "fl_mul (Fin x) b = NaN \<longleftrightarrow> b = NaN"
  using assms by (cases b) (auto simp: fl_mul_def to_double_not_NaN signed_inf_def)

lemma fl_mul_pos_cases:
  assumes "0 < x" and "a = NaN \<or> nn a"
  shows "fl_mul (Fin x) a = NaN \<or> nn (fl_mul (Fin x) a)"
    and "fl_mul (Fin x) a = NaN \<Longrightarrow> a = NaN"
  using assms by (auto simp: fl_mul_pos_NaN fl_mul_pos_nn)

lemma fl_div_nn_pos:
  assumes "nn a" and "0 < y"
  shows "nn (fl_div a (Fin y))"
  using assms by (cases a) (auto simp: fl_div_def to_double_nn signed_inf_def)

lemma fl_div_NaN_pos:
  assumes "0 < y"
  shows "fl_div a (Fin y) = NaN \<longleftrightarrow> a = NaN"
  using assms by (cases a) (auto simp: fl_div_def to_double_not_NaN signed_inf_def)

lemma fl_div_zero_dividend:
  "fl_div (Fin 0) D = (if D = Fin 0 \<or> D = NaN then NaN else Fin 0)"
  by (cases D) (auto simp: fl_div_def to_double_zero)

lemma fl_div_not_zero:
  assumes "i \<noteq> 0" and "min_subnormal \<le> \<bar>n / i\<bar>"
  shows "fl_div (Fin n) (Fin i) \<noteq> Fin 0"
  using assms by (simp add: fl_div_def to_double_not_zero)

lemma fl_add_nn:
  assumes "nn a" and "nn b"
  shows "nn (fl_add a b)"
  using assms by (cases a; cases b) (auto simp: fl_add_def to_double_nn)

text \<open>A difference of ordered values is not negative, or NaN when both are infinite.\<close>

lemma fl_sub_ordered:
  assumes "js_le b a" and "nn a"
  shows "fl_sub a b = NaN \<or> nn (fl_sub a b)"
    and "fl_sub a b = NaN \<Longrightarrow> a = PInf \<and> b = PInf"
  using assms
  by (cases a; cases b; auto simp: fl_sub_def js_sub_def to_double_nn to_double_not_NaN)+

lemma Math_pow_nat_nn:
  assumes "nn a"
  shows "nn (Math_pow_nat a n)"
  using assms by (cases a) (auto simp: Math_pow_nat_def to_double_nn)

lemma Math_pow_nat_mono:
  assumes "0 \<le> x" and "x \<le> y"
  shows "js_le (Math_pow_nat (Fin x) n) (Math_pow_nat (Fin y) n)"
  using assms by (simp add: Math_pow_nat_def to_double_mono power_mono)

section \<open>First moment at the branch boundaries\<close>

text \<open>
  At the outer radius itself the ordinate is taken by the inside branch (the test is
  \<open>yAbs > outerRadius\<close>), and the inside formula gives 0 there, the value of the outside
  branch: no jump at the outer boundary of any section kind.
\<close>

lemma Q_point_at_outerRadius:
  assumes "valid_dims st d" and "\<bar>y\<bar> = outerRadius (sectionProps st d)"
  shows "Q_point st d y = Fin 0"
  using assms(1)
proof (cases rule: valid_dims_cases)
  case rectangle
  have "y ^ 2 = (rectHeightSI d / 2) ^ 2"
    using assms(2) rectangle abs_eq_imp_square_eq [of y "rectHeightSI d / 2"]
    by (simp add: sectionProps_def power2_eq_square)
  then show ?thesis
    using assms(2) rectangle by (simp add: sectionProps_def Q_point_def Let_def)
next
  case circle
  have "y * y = (circleDiameterSI d / 2) * (circleDiameterSI d / 2)"
    using assms(2) circle abs_eq_imp_square_eq [of y "circleDiameterSI d / 2"]
    by (simp add: sectionProps_def Let_def)
  then show ?thesis
    using assms(2) circle by (simp add: sectionProps_def Q_point_def Let_def Math_pow15_def)
next
  case hollowCircle
  have "y * y = hollowOuterSI d * hollowOuterSI d"
    using assms(2) hollowCircle abs_eq_imp_square_eq [of y "hollowOuterSI d"]
    by (simp add: sectionProps_def Let_def)
  then show ?thesis
    using assms(2) hollowCircle
    by (simp add: sectionProps_def Q_point_def Let_def Math_pow15_def)
next
  case iBeam
  then show ?thesis
    using assms(2) by (simp add: sectionProps_def Q_point_def Let_def)
qed

text \<open>
  At the bore of a valid hollow circle the ordinate is taken by the branch that subtracts
  the hole, and the hole's term is 0 there: the value is that of the ring formula.
\<close>

lemma hollowCircle_Q_point_at_Ri:
  assumes "0 < hollowInnerSI d" and "hollowInnerSI d < hollowOuterSI d"
    and "\<bar>y\<bar> = hollowInnerSI d"
  shows "Q_point ''hollowCircle'' d y =
    Fin ((2 / 3) * (hollowOuterSI d * hollowOuterSI d - y * y) powr (3 / 2))"
proof -
  have sq: "y * y = hollowInnerSI d * hollowInnerSI d"
    using assms(3) by (rule abs_eq_imp_square_eq)
  have "hollowInnerSI d * hollowInnerSI d < hollowOuterSI d * hollowOuterSI d"
    using assms(1,2) by (simp add: mult_strict_mono)
  then show ?thesis
    using assms sq by (simp add: Q_point_def Let_def Math_pow15_def js_sub_def)
qed

text \<open>
  At the flange root of an I-beam the ordinate is taken by the web branch, whose value
  there is bf tf; every ordinate in the flange gives at most bf tf (tf / 2).
\<close>

lemma iBeam_Q_point_root_jump:
  assumes "0 < iBeamDepthSI d" and "0 < iBeamFlangeWidthSI d"
    and "0 < iBeamFlangeThickSI d" and "0 < iBeamWebThickSI d"
    and "2 * iBeamFlangeThickSI d < iBeamDepthSI d"
  shows "Q_point ''iBeam'' d (iBeamDepthSI d / 2 - iBeamFlangeThickSI d) =
      Fin (iBeamFlangeWidthSI d * iBeamFlangeThickSI d)"
    and "iBeamDepthSI d / 2 - iBeamFlangeThickSI d < \<bar>y\<bar> \<Longrightarrow> \<bar>y\<bar> \<le> iBeamDepthSI d / 2 \<Longrightarrow>
      \<exists>q. Q_point ''iBeam'' d y = Fin q \<and>
          q \<le> iBeamFlangeWidthSI d * iBeamFlangeThickSI d * (iBeamFlangeThickSI d / 2)"
proof -
  show "Q_point ''iBeam'' d (iBeamDepthSI d / 2 - iBeamFlangeThickSI d) =
      Fin (iBeamFlangeWidthSI d * iBeamFlangeThickSI d)"
    using assms by (simp add: Q_point_def Let_def)
next
  assume lo: "iBeamDepthSI d / 2 - iBeamFlangeThickSI d < \<bar>y\<bar>"
    and hi: "\<bar>y\<bar> \<le> iBeamDepthSI d / 2"
  define f where "f = iBeamDepthSI d / 2 - \<bar>y\<bar>"
  have f: "0 \<le> f" "f \<le> iBeamFlangeThickSI d" using lo hi by (simp_all add: f_def)
  have "f * f \<le> iBeamFlangeThickSI d * iBeamFlangeThickSI d"
    using f by (intro mult_mono) simp_all
  then have "iBeamFlangeWidthSI d * (f * f) \<le>
      iBeamFlangeWidthSI d * (iBeamFlangeThickSI d * iBeamFlangeThickSI d)"
    using assms(2) by (simp add: mult_left_mono)
  then have "iBeamFlangeWidthSI d * f * (f / 2) \<le>
      iBeamFlangeWidthSI d * iBeamFlangeThickSI d * (iBeamFlangeThickSI d / 2)"
    by (simp add: algebra_simps)
  moreover have "Q_point ''iBeam'' d y = Fin (iBeamFlangeWidthSI d * f * (f / 2))"
    using lo hi by (simp add: Q_point_def Let_def f_def)
  ultimately show "\<exists>q. Q_point ''iBeam'' d y = Fin q \<and>
          q \<le> iBeamFlangeWidthSI d * iBeamFlangeThickSI d * (iBeamFlangeThickSI d / 2)"
    by blast
qed

text \<open>
  C1. Every boundary ordinate is taken by the inside branch, and Q has the same value on
  both sides of every branch boundary; in particular the web and the flange branch of the
  I-beam agree at |y| = hd - tf. The code does not do this at the flange root. With the
  form's initial I-beam (h = 0.2, bf = 0.1, tf = 0.02, tw = 0.01) the root is at 0.08:
  there the web branch returns bf tf = 0.002, while one millimetre further out the flange
  branch returns 0.00001805, below its bound bf tf (tf / 2) = 0.00002.
\<close>

theorem iBeam_Q_point_root_values:
  "Q_point ''iBeam'' default_dims (8 / 100) = Fin (2 / 1000) \<and>
   Q_point ''iBeam'' default_dims (81 / 1000) = Fin (361 / 20000000)"
  by (simp add: Q_point_def Let_def default_dims_def)

text \<open>
  With the inner radius above the outer one, which \<open>sectionProps\<close> tests for and
  \<open>Q_point\<close> does not, the first moment is negative at the outer radius and 0 beyond it.
\<close>

lemma degenerate_hollow_Q_point_at_Ro:
  "Q_point ''hollowCircle'' degenerate_hollow (4 / 100) =
     Fin (- ((2 / 3) * (48 / 10000) powr (3 / 2))) \<and>
   Q_point ''hollowCircle'' degenerate_hollow (41 / 1000) = Fin 0"
  by (simp add: Q_point_def Let_def degenerate_hollow_def default_dims_def Math_pow15_def
      js_sub_def)

section \<open>First moment at the neutral axis\<close>

text \<open>
  C2. For valid dimensions Q is 0 at y = outerRadius and Q at y = 0 is the largest value
  of Q over all ordinates. The first half is \<open>Q_point_at_outerRadius\<close>. The second half
  fails for an I-beam with thick flanges: with h = 8, bf = 1, tf = 3, tw = 1 the value at
  y = 0 is 3.5 and the value at y = 1.1, inside the flange, is 4.205.
\<close>

theorem iBeam_Q_point_not_max_at_zero:
  "valid_dims ''iBeam'' deep_flange_iBeam \<and>
   Q_point ''iBeam'' deep_flange_iBeam 0 = Fin (7 / 2) \<and>
   Q_point ''iBeam'' deep_flange_iBeam (11 / 10) = Fin (841 / 200)"
  by (simp add: Q_point_def Let_def deep_flange_iBeam_def default_dims_def valid_dims_def)

section \<open>I-beam: first moment by branch\<close>

text \<open>The computed flange root is not above the computed half depth.\<close>

lemma flangeRoot_le_halfDepth:
  assumes "0 < iBeamDepthSI d" and "0 < iBeamFlangeThickSI d"
  shows "js_le (flangeRoot_d d) (halfDepth_d d)"
proof -
  have hd: "halfDepth_d d = to_double (iBeamDepthSI d / 2)"
    by (simp add: halfDepth_d_def fl_div_def)
  have "nn (to_double (iBeamDepthSI d / 2))" using assms(1) by (intro to_double_nn) simp
  then consider v where "halfDepth_d d = Fin v" | "halfDepth_d d = PInf"
    unfolding hd by (cases "to_double (iBeamDepthSI d / 2)") auto
  then show ?thesis
  proof cases
    case 1
    then have "is_double v" unfolding hd by (rule is_double_result)
    then have "js_le (to_double (v - iBeamFlangeThickSI d)) (Fin v)"
      using assms(2) by (intro to_double_le_double) simp_all
    then show ?thesis by (simp add: flangeRoot_d_def 1 fl_sub_def js_sub_def)
  next
    case 2
    then show ?thesis by (simp add: flangeRoot_d_def fl_sub_def js_sub_def)
  qed
qed

text \<open>
  C3. For an I-beam with positive dimensions and 2 tf < h, with hd = h / 2 and the root
  hd - tf as the code computes them: an ordinate with |y| <= hd - tf gives
  Q = bf tf + webArea webCentroid, where webArea = tw (hd - tf - |y|) and
  webCentroid = (hd - tf + |y|) / 2; an ordinate with hd - tf < |y| <= hd gives
  Q = bf (hd - |y|) ((hd - |y|) / 2). Every operation is the rounded one, and the test is
  made on the rounded root, as in the code.
\<close>

theorem iBeam_Q_point_d_branches:
  assumes "0 < iBeamDepthSI d" and "0 < iBeamFlangeWidthSI d"
    and "0 < iBeamFlangeThickSI d" and "0 < iBeamWebThickSI d"
    and "2 * iBeamFlangeThickSI d < iBeamDepthSI d"
  shows "(js_le (Fin \<bar>y\<bar>) (flangeRoot_d d) \<longrightarrow>
      Q_point_d ''iBeam'' d y =
        fl_add (fl_mul (Fin (iBeamFlangeWidthSI d)) (Fin (iBeamFlangeThickSI d)))
          (fl_mul (fl_mul (Fin (iBeamWebThickSI d)) (fl_sub (flangeRoot_d d) (Fin \<bar>y\<bar>)))
                  (fl_div (fl_add (flangeRoot_d d) (Fin \<bar>y\<bar>)) (Fin 2)))) \<and>
    (js_less (flangeRoot_d d) (Fin \<bar>y\<bar>) \<and> js_le (Fin \<bar>y\<bar>) (halfDepth_d d) \<longrightarrow>
      Q_point_d ''iBeam'' d y =
        fl_mul (fl_mul (Fin (iBeamFlangeWidthSI d)) (fl_sub (halfDepth_d d) (Fin \<bar>y\<bar>)))
               (fl_div (fl_sub (halfDepth_d d) (Fin \<bar>y\<bar>)) (Fin 2)))"
proof (intro conjI impI)
  assume web: "js_le (Fin \<bar>y\<bar>) (flangeRoot_d d)"
  have "js_le (Fin \<bar>y\<bar>) (halfDepth_d d)"
    using web flangeRoot_le_halfDepth [OF assms(1,3)] by (rule js_le_trans)
  then have "\<not> js_less (halfDepth_d d) (Fin \<bar>y\<bar>)" by (rule js_le_not_less)
  then show "Q_point_d ''iBeam'' d y =
        fl_add (fl_mul (Fin (iBeamFlangeWidthSI d)) (Fin (iBeamFlangeThickSI d)))
          (fl_mul (fl_mul (Fin (iBeamWebThickSI d)) (fl_sub (flangeRoot_d d) (Fin \<bar>y\<bar>)))
                  (fl_div (fl_add (flangeRoot_d d) (Fin \<bar>y\<bar>)) (Fin 2)))"
    using web unfolding flangeRoot_d_def halfDepth_d_def
    by (simp add: Q_point_d_def Let_def)
next
  assume fl: "js_less (flangeRoot_d d) (Fin \<bar>y\<bar>) \<and> js_le (Fin \<bar>y\<bar>) (halfDepth_d d)"
  then have "\<not> js_less (halfDepth_d d) (Fin \<bar>y\<bar>)" and "\<not> js_le (Fin \<bar>y\<bar>) (flangeRoot_d d)"
    by (simp_all add: js_le_not_less js_less_not_le)
  then show "Q_point_d ''iBeam'' d y =
        fl_mul (fl_mul (Fin (iBeamFlangeWidthSI d)) (fl_sub (halfDepth_d d) (Fin \<bar>y\<bar>)))
               (fl_div (fl_sub (halfDepth_d d) (Fin \<bar>y\<bar>)) (Fin 2))"
    unfolding flangeRoot_d_def halfDepth_d_def
    by (simp add: Q_point_d_def Let_def)
qed

text \<open>
  The doubles met when h = 0.3, bf = 0.1, tf = 0.02, tw = 0.01 and y = 0.13 are entered:
  the half depth, the rounded root (which is the double of 0.13 although the exact
  difference is below it), and the rounded product bf tf (the double of 0.002).
\<close>

lemma decimal_facts:
  "to_double (5404319552844595 / 2 ^ 55) = Fin (5404319552844595 / 2 ^ 55)"
  "to_double (5404319552844595 / 2 ^ 55 - 5764607523034235 / 2 ^ 58) =
     Fin (1170935903116329 / 2 ^ 53)"
  "to_double (1170935903116329 / 2 ^ 53) = Fin (1170935903116329 / 2 ^ 53)"
  "to_double (1170935903116329 / 2 ^ 52) = Fin (1170935903116329 / 2 ^ 52)"
  "to_double ((3602879701896397 / 2 ^ 55) * (5764607523034235 / 2 ^ 58)) =
     Fin (1152921504606847 / 2 ^ 59)"
  "to_double (1152921504606847 / 2 ^ 59) = Fin (1152921504606847 / 2 ^ 59)"
proof -
  show "to_double (5404319552844595 / 2 ^ 55) = Fin (5404319552844595 / 2 ^ 55)"
    using is_double_dyadic [of 5404319552844595 "- 55"] by (simp add: is_double_def)
  show "to_double (1170935903116329 / 2 ^ 53) = Fin (1170935903116329 / 2 ^ 53)"
    using is_double_dyadic [of 1170935903116329 "- 53"] by (simp add: is_double_def)
  show "to_double (1170935903116329 / 2 ^ 52) = Fin (1170935903116329 / 2 ^ 52)"
    using is_double_dyadic [of 1170935903116329 "- 52"] by (simp add: is_double_def)
  show "to_double (1152921504606847 / 2 ^ 59) = Fin (1152921504606847 / 2 ^ 59)"
    using is_double_dyadic [of 1152921504606847 "- 59"] by (simp add: is_double_def)
  show "to_double (5404319552844595 / 2 ^ 55 - 5764607523034235 / 2 ^ 58) =
     Fin (1170935903116329 / 2 ^ 53)"
    using to_double_eval [of "- 3" "5404319552844595 / 2 ^ 55 - 5764607523034235 / 2 ^ 58"]
    by (simp add: rne_def Let_def)
  show "to_double ((3602879701896397 / 2 ^ 55) * (5764607523034235 / 2 ^ 58)) =
     Fin (1152921504606847 / 2 ^ 59)"
    using to_double_eval [of "- 9" "(3602879701896397 / 2 ^ 55) * (5764607523034235 / 2 ^ 58)"]
    by (simp add: rne_def Let_def)
qed

lemma dyadic_facts:
  "to_double (1 / 8) = Fin (1 / 8)" "to_double (3 / 32) = Fin (3 / 32)"
  "to_double (1 / 16) = Fin (1 / 16)"
  using is_double_dyadic [of 1 "- 3"] is_double_dyadic [of 3 "- 5"] is_double_dyadic [of 1 "- 4"]
  by (simp_all add: is_double_def)

text \<open>
  The witness: at the decimal I-beam with y = 0.13 the exact difference hd - tf is below
  |y|, the rounded root is not, the web branch is taken and Q is the double of 0.002; at
  a binary I-beam an ordinate in the flange gives the flange expression.
\<close>

theorem iBeam_Q_point_d_branches_witness:
  "iBeamDepthSI decimal_iBeam / 2 - iBeamFlangeThickSI decimal_iBeam <
     \<bar>1170935903116329 / 2 ^ 53\<bar> \<and>
   js_le (Fin \<bar>1170935903116329 / 2 ^ 53\<bar>) (flangeRoot_d decimal_iBeam) \<and>
   Q_point_d ''iBeam'' decimal_iBeam (1170935903116329 / 2 ^ 53) =
     Fin (1152921504606847 / 2 ^ 59) \<and>
   Q_point_d ''iBeam'' dyadic_dims (- 7 / 64) =
     fl_mul (fl_mul (Fin (1 / 8)) (fl_sub (Fin (1 / 8)) (Fin (7 / 64))))
            (fl_div (fl_sub (Fin (1 / 8)) (Fin (7 / 64))) (Fin 2))"
proof -
  have hd: "halfDepth_d dyadic_dims = Fin (1 / 8)"
    by (simp add: halfDepth_d_def dyadic_dims_def fl_div_def dyadic_facts)
  have root: "flangeRoot_d dyadic_dims = Fin (3 / 32)"
    unfolding flangeRoot_d_def hd
    by (simp add: dyadic_dims_def fl_sub_def js_sub_def dyadic_facts)
  have flange: "Q_point_d ''iBeam'' dyadic_dims (- 7 / 64) =
     fl_mul (fl_mul (Fin (1 / 8)) (fl_sub (Fin (1 / 8)) (Fin (7 / 64))))
            (fl_div (fl_sub (Fin (1 / 8)) (Fin (7 / 64))) (Fin 2))"
    using iBeam_Q_point_d_branches [of dyadic_dims "- 7 / 64"]
    unfolding hd root by (simp add: dyadic_dims_def)
  have dhd: "halfDepth_d decimal_iBeam = Fin (5404319552844595 / 2 ^ 55)"
    using decimal_facts(1)
    by (simp add: halfDepth_d_def decimal_iBeam_def dyadic_dims_def fl_div_def)
  have droot: "flangeRoot_d decimal_iBeam = Fin (1170935903116329 / 2 ^ 53)"
    unfolding flangeRoot_d_def dhd using decimal_facts(2)
    by (simp add: decimal_iBeam_def dyadic_dims_def fl_sub_def js_sub_def)
  have web: "Q_point_d ''iBeam'' decimal_iBeam (1170935903116329 / 2 ^ 53) =
     Fin (1152921504606847 / 2 ^ 59)"
    using iBeam_Q_point_d_branches [of decimal_iBeam "1170935903116329 / 2 ^ 53"]
      decimal_facts
    unfolding droot
    by (simp add: decimal_iBeam_def dyadic_dims_def fl_div_def fl_sub_def fl_mul_def
        fl_add_def js_sub_def to_double_zero)
  have exact: "iBeamDepthSI decimal_iBeam / 2 - iBeamFlangeThickSI decimal_iBeam <
     \<bar>1170935903116329 / 2 ^ 53\<bar>"
    by (simp add: decimal_iBeam_def dyadic_dims_def)
  show ?thesis using exact web flange by (simp add: droot)
qed

section \<open>The I-beam at decimal inputs, in binary64\<close>

text \<open>The doubles met at the form's initial I-beam with y = 0.08 and y = 0.081.\<close>

lemma default_decimal_facts:
  "to_double (3602879701896397 / 2 ^ 55) = Fin (3602879701896397 / 2 ^ 55)"
  "to_double (3602879701896397 / 2 ^ 55 - 5764607523034235 / 2 ^ 58) =
     Fin (5764607523034235 / 2 ^ 56)"
  "to_double (5764607523034235 / 2 ^ 56) = Fin (5764607523034235 / 2 ^ 56)"
  "to_double (5764607523034235 / 2 ^ 55) = Fin (5764607523034235 / 2 ^ 55)"
  "to_double (3602879701896397 / 2 ^ 55 - 5836665117072163 / 2 ^ 56) =
     Fin (1369094286720631 / 2 ^ 56)"
  "to_double ((3602879701896397 / 2 ^ 55) * (1369094286720631 / 2 ^ 56)) =
     Fin (8762203435012039 / 2 ^ 62)"
  "to_double (1369094286720631 / 2 ^ 57) = Fin (1369094286720631 / 2 ^ 57)"
  "to_double ((8762203435012039 / 2 ^ 62) * (1369094286720631 / 2 ^ 57)) =
     Fin (5327419688487321 / 2 ^ 68)"
proof -
  show "to_double (3602879701896397 / 2 ^ 55) = Fin (3602879701896397 / 2 ^ 55)"
    using is_double_dyadic [of 3602879701896397 "- 55"] by (simp add: is_double_def)
  show "to_double (5764607523034235 / 2 ^ 56) = Fin (5764607523034235 / 2 ^ 56)"
    using is_double_dyadic [of 5764607523034235 "- 56"] by (simp add: is_double_def)
  show "to_double (5764607523034235 / 2 ^ 55) = Fin (5764607523034235 / 2 ^ 55)"
    using is_double_dyadic [of 5764607523034235 "- 55"] by (simp add: is_double_def)
  show "to_double (1369094286720631 / 2 ^ 57) = Fin (1369094286720631 / 2 ^ 57)"
    using is_double_dyadic [of 1369094286720631 "- 57"] by (simp add: is_double_def)
  show "to_double (3602879701896397 / 2 ^ 55 - 5764607523034235 / 2 ^ 58) =
     Fin (5764607523034235 / 2 ^ 56)"
    using to_double_eval [of "- 4" "3602879701896397 / 2 ^ 55 - 5764607523034235 / 2 ^ 58"]
    by (simp add: rne_def Let_def)
  show "to_double (3602879701896397 / 2 ^ 55 - 5836665117072163 / 2 ^ 56) =
     Fin (1369094286720631 / 2 ^ 56)"
    using to_double_eval [of "- 6" "3602879701896397 / 2 ^ 55 - 5836665117072163 / 2 ^ 56"]
    by (simp add: rne_def Let_def)
  show "to_double ((3602879701896397 / 2 ^ 55) * (1369094286720631 / 2 ^ 56)) =
     Fin (8762203435012039 / 2 ^ 62)"
    using to_double_eval [of "- 10" "(3602879701896397 / 2 ^ 55) * (1369094286720631 / 2 ^ 56)"]
    by (simp add: rne_def Let_def)
  show "to_double ((8762203435012039 / 2 ^ 62) * (1369094286720631 / 2 ^ 57)) =
     Fin (5327419688487321 / 2 ^ 68)"
    using to_double_eval [of "- 16" "(8762203435012039 / 2 ^ 62) * (1369094286720631 / 2 ^ 57)"]
    by (simp add: rne_def Let_def)
qed

text \<open>
  At the form's initial I-beam the rounded root is the double of 0.08: the ordinate 0.08
  takes the web branch and gives the double of 0.002, the ordinate 0.081 takes the flange
  branch and gives about 0.00001805. The jump at the flange root is there in binary64 too.
\<close>

lemma decimal_default_iBeam_binary64:
  "Q_point_d ''iBeam'' decimal_default_iBeam (5764607523034235 / 2 ^ 56) =
     Fin (1152921504606847 / 2 ^ 59) \<and>
   Q_point_d ''iBeam'' decimal_default_iBeam (5836665117072163 / 2 ^ 56) =
     Fin (5327419688487321 / 2 ^ 68)"
  using default_decimal_facts decimal_facts(5,6)
  by (simp add: Q_point_d_def Let_def decimal_default_iBeam_def dyadic_dims_def
      fl_div_def fl_sub_def fl_mul_def fl_add_def js_sub_def to_double_zero)

text \<open>The doubles met at the I-beam with h = 8, bf = 1, tf = 3, tw = 1.\<close>

lemma deep_facts:
  "to_double 4 = Fin 4" "to_double 1 = Fin 1" "to_double 3 = Fin 3"
  "to_double (1 / 2) = Fin (1 / 2)" "to_double (7 / 2) = Fin (7 / 2)"
  "to_double (4 - 2476979795053773 / 2 ^ 51) = Fin (6530219459687219 / 2 ^ 51)"
  "to_double (6530219459687219 / 2 ^ 51) = Fin (6530219459687219 / 2 ^ 51)"
  "to_double (6530219459687219 / 2 ^ 52) = Fin (6530219459687219 / 2 ^ 52)"
  "to_double ((6530219459687219 / 2 ^ 51) * (6530219459687219 / 2 ^ 52)) =
     Fin (2367204554136617 / 2 ^ 49)"
proof -
  show "to_double 4 = Fin 4" using is_double_dyadic [of 4 0] by (simp add: is_double_def)
  show "to_double 1 = Fin 1" using is_double_dyadic [of 1 0] by (simp add: is_double_def)
  show "to_double 3 = Fin 3" using is_double_dyadic [of 3 0] by (simp add: is_double_def)
  show "to_double (1 / 2) = Fin (1 / 2)"
    using is_double_dyadic [of 1 "- 1"] by (simp add: is_double_def)
  show "to_double (7 / 2) = Fin (7 / 2)"
    using is_double_dyadic [of 7 "- 1"] by (simp add: is_double_def)
  show "to_double (6530219459687219 / 2 ^ 51) = Fin (6530219459687219 / 2 ^ 51)"
    using is_double_dyadic [of 6530219459687219 "- 51"] by (simp add: is_double_def)
  show "to_double (6530219459687219 / 2 ^ 52) = Fin (6530219459687219 / 2 ^ 52)"
    using is_double_dyadic [of 6530219459687219 "- 52"] by (simp add: is_double_def)
  show "to_double (4 - 2476979795053773 / 2 ^ 51) = Fin (6530219459687219 / 2 ^ 51)"
    using to_double_eval [of 1 "4 - 2476979795053773 / 2 ^ 51"]
    by (simp add: rne_def Let_def)
  show "to_double ((6530219459687219 / 2 ^ 51) * (6530219459687219 / 2 ^ 52)) =
     Fin (2367204554136617 / 2 ^ 49)"
    using to_double_eval [of 2 "(6530219459687219 / 2 ^ 51) * (6530219459687219 / 2 ^ 52)"]
    by (simp add: rne_def Let_def)
qed

text \<open>
  At the I-beam with h = 8, bf = 1, tf = 3, tw = 1 the value at 0 is 3.5 and the value at
  the double of 1.1 is the double of 4.205, in binary64 too.
\<close>

lemma deep_flange_iBeam_binary64:
  "Q_point_d ''iBeam'' deep_flange_iBeam 0 = Fin (7 / 2) \<and>
   Q_point_d ''iBeam'' deep_flange_iBeam (2476979795053773 / 2 ^ 51) =
     Fin (2367204554136617 / 2 ^ 49) \<and>
   (7 / 2 :: real) < 2367204554136617 / 2 ^ 49"
  using deep_facts
  by (simp add: Q_point_d_def Let_def deep_flange_iBeam_def default_dims_def
      fl_div_def fl_sub_def fl_mul_def fl_add_def js_sub_def to_double_zero)

section \<open>Stress formulas\<close>

text \<open>
  C4. For every property record, first moment, load set and ordinate the four results are
  axial = axialForce / area, bending = bendingMoment y / inertia,
  torsionalShear = torque |y| / polarInertia and
  transverseShear = shearForce Q / (inertia shearThickness): each is the quotient itself,
  not clamped and not combined with the others. Where the divisor is not zero the quotient
  is the real one.
\<close>

theorem computeStresses_formulas:
  "axial (computeStresses p Q l y) = js_div (Fin (forceSI l)) (Fin (area p)) \<and>
   bending (computeStresses p Q l y) = js_div (Fin (momentSI l * y)) (Fin (inertia p)) \<and>
   torsionalShear (computeStresses p Q l y) =
     js_div (Fin (torqueSI l * \<bar>y\<bar>)) (Fin (polarInertia p)) \<and>
   transverseShear (computeStresses p Q l y) =
     js_div (js_mul (Fin (shearForceSI l)) Q) (Fin (inertia p * shearThickness p)) \<and>
   (area p \<noteq> 0 \<longrightarrow> axial (computeStresses p Q l y) = Fin (forceSI l / area p)) \<and>
   (inertia p \<noteq> 0 \<longrightarrow>
      bending (computeStresses p Q l y) = Fin (momentSI l * y / inertia p)) \<and>
   (polarInertia p \<noteq> 0 \<longrightarrow>
      torsionalShear (computeStresses p Q l y) = Fin (torqueSI l * \<bar>y\<bar> / polarInertia p)) \<and>
   (inertia p * shearThickness p \<noteq> 0 \<longrightarrow>
      transverseShear (computeStresses p (Fin q) l y) =
        Fin (shearForceSI l * q / (inertia p * shearThickness p)))"
  by (simp add: computeStresses_def axialStressSI_def bendingStressSI_def
      torsionalShearSI_def transverseShearSI_def)

theorem computeStresses_formulas_witness:
  "axial (computeStresses (sectionProps ''rectangle'' default_dims) (Fin (21 / 400000))
      default_loads (- 2 / 100)) = Fin 200000 \<and>
   bending (computeStresses (sectionProps ''rectangle'' default_dims) (Fin (21 / 400000))
      default_loads (- 2 / 100)) = Fin (- 4800000) \<and>
   torsionalShear (computeStresses (sectionProps ''rectangle'' default_dims)
      (Fin (21 / 400000)) default_loads (- 2 / 100)) = Fin 1200000 \<and>
   transverseShear (computeStresses (sectionProps ''rectangle'' default_dims)
      (Fin (21 / 400000)) default_loads (- 2 / 100)) = Fin 126000"
  using computeStresses_formulas [of "sectionProps ''rectangle'' default_dims"
      "Fin (21 / 400000)" default_loads "- 2 / 100" "21 / 400000"]
  by (simp add: sectionProps_def default_dims_def default_loads_def power3_eq_cube)

section \<open>Hollow circle: section properties\<close>

text \<open>
  C5. For the hollow circle, an inner radius that is not below the outer radius gives the
  record with area, inertia, polar inertia and shear thickness 0 and the outer radius Ro;
  an inner radius below the outer one gives pi (Ro^2 - Ri^2), (pi/4) (Ro^4 - Ri^4),
  (pi/2) (Ro^4 - Ri^4), Ro and Ro - Ri. The function is total: nothing is raised in
  either case.
\<close>

theorem hollowCircle_sectionProps:
  "(hollowInnerSI d \<ge> hollowOuterSI d \<longrightarrow>
      sectionProps ''hollowCircle'' d =
        \<lparr>area = 0, inertia = 0, polarInertia = 0,
         outerRadius = hollowOuterSI d, shearThickness = 0\<rparr>) \<and>
   (hollowInnerSI d < hollowOuterSI d \<longrightarrow>
      sectionProps ''hollowCircle'' d =
        \<lparr>area = pi * (hollowOuterSI d ^ 2 - hollowInnerSI d ^ 2),
         inertia = (pi / 4) * (hollowOuterSI d ^ 4 - hollowInnerSI d ^ 4),
         polarInertia = (pi / 2) * (hollowOuterSI d ^ 4 - hollowInnerSI d ^ 4),
         outerRadius = hollowOuterSI d,
         shearThickness = hollowOuterSI d - hollowInnerSI d\<rparr>)"
  by (simp add: sectionProps_def Let_def)

theorem hollowCircle_sectionProps_witness:
  "sectionProps ''hollowCircle'' degenerate_hollow =
     \<lparr>area = 0, inertia = 0, polarInertia = 0, outerRadius = 4 / 100, shearThickness = 0\<rparr> \<and>
   sectionProps ''hollowCircle'' default_dims =
     \<lparr>area = pi * ((8 / 100) ^ 2 - (4 / 100) ^ 2),
      inertia = (pi / 4) * ((8 / 100) ^ 4 - (4 / 100) ^ 4),
      polarInertia = (pi / 2) * ((8 / 100) ^ 4 - (4 / 100) ^ 4),
      outerRadius = 8 / 100,
      shearThickness = 8 / 100 - 4 / 100\<rparr>"
  using hollowCircle_sectionProps [of degenerate_hollow]
    hollowCircle_sectionProps [of default_dims]
  by (simp add: degenerate_hollow_def default_dims_def)

section \<open>Division by zero\<close>

text \<open>
  C6. A shear thickness of 0 makes the transverse shear a result that is not finite
  (an infinity or NaN), and an area of 0 does the same to the axial stress; the division
  is not intercepted and the result is a value, not an exception. A hollow circle whose
  inner radius is not below the outer one leads to both.
\<close>

theorem zero_divisor_not_finite:
  "(shearThickness p = 0 \<longrightarrow> \<not> isFinite (transverseShear (computeStresses p Q l y))) \<and>
   (area p = 0 \<longrightarrow> \<not> isFinite (axial (computeStresses p Q l y))) \<and>
   (hollowInnerSI d \<ge> hollowOuterSI d \<longrightarrow>
      \<not> isFinite (transverseShear (stresses_at ''hollowCircle'' d l y)) \<and>
      \<not> isFinite (axial (stresses_at ''hollowCircle'' d l y)))"
  by (simp add: stresses_at_def computeStresses_def axialStressSI_def transverseShearSI_def
      sectionProps_def Let_def js_div_zero_not_finite del: js_div.simps)

theorem zero_divisor_not_finite_witness:
  "\<not> isFinite (transverseShear (computeStresses
       (sectionProps ''hollowCircle'' degenerate_hollow) (Fin 0) default_loads 0)) \<and>
   axial (computeStresses
       (sectionProps ''hollowCircle'' degenerate_hollow) (Fin 0) default_loads 0) = PInf \<and>
   \<not> isFinite (transverseShear
       (stresses_at ''hollowCircle'' degenerate_hollow default_loads (1 / 100))) \<and>
   \<not> isFinite (axial
       (stresses_at ''hollowCircle'' degenerate_hollow default_loads (1 / 100)))"
  using zero_divisor_not_finite [of "sectionProps ''hollowCircle'' degenerate_hollow"
      "Fin 0" default_loads 0 degenerate_hollow]
    zero_divisor_not_finite [of "sectionProps ''hollowCircle'' degenerate_hollow"
      "Fin 0" default_loads "1 / 100" degenerate_hollow]
  by (simp add: degenerate_hollow_def default_dims_def default_loads_def sectionProps_def
      computeStresses_def axialStressSI_def signed_inf_def)

section \<open>Hollow circle: first moment by branch\<close>

text \<open>
  C7. For a hollow circle with 0 < Ri < Ro the first moment is 0 when |y| > Ro, is
  (2/3) ((Ro^2 - y^2)^1.5 - (Ri^2 - y^2)^1.5) when |y| <= Ri, and is
  (2/3) (Ro^2 - y^2)^1.5 when Ri < |y| <= Ro. Both bases are non-negative where they are
  used, so the powers are finite.
\<close>

theorem hollowCircle_Q_point_pieces:
  assumes "0 < hollowInnerSI d" and "hollowInnerSI d < hollowOuterSI d"
  shows "(\<bar>y\<bar> > hollowOuterSI d \<longrightarrow> Q_point ''hollowCircle'' d y = Fin 0) \<and>
    (\<bar>y\<bar> \<le> hollowInnerSI d \<longrightarrow>
       Q_point ''hollowCircle'' d y =
         Fin ((2 / 3) * ((hollowOuterSI d ^ 2 - y ^ 2) powr (3 / 2) -
                         (hollowInnerSI d ^ 2 - y ^ 2) powr (3 / 2)))) \<and>
    (hollowInnerSI d < \<bar>y\<bar> \<and> \<bar>y\<bar> \<le> hollowOuterSI d \<longrightarrow>
       Q_point ''hollowCircle'' d y =
         Fin ((2 / 3) * (hollowOuterSI d ^ 2 - y ^ 2) powr (3 / 2)))"
proof (intro conjI impI)
  assume "\<bar>y\<bar> > hollowOuterSI d"
  then show "Q_point ''hollowCircle'' d y = Fin 0"
    by (simp add: Q_point_def Let_def)
next
  assume inner: "\<bar>y\<bar> \<le> hollowInnerSI d"
  then have outer: "\<bar>y\<bar> \<le> hollowOuterSI d" using assms by linarith
  have "y * y \<le> hollowInnerSI d * hollowInnerSI d"
    and "y * y \<le> hollowOuterSI d * hollowOuterSI d"
    using inner outer by (simp_all add: abs_le_imp_square_le)
  then show "Q_point ''hollowCircle'' d y =
         Fin ((2 / 3) * ((hollowOuterSI d ^ 2 - y ^ 2) powr (3 / 2) -
                         (hollowInnerSI d ^ 2 - y ^ 2) powr (3 / 2)))"
    using inner outer
    by (simp add: Q_point_def Let_def Math_pow15_def js_sub_def power2_eq_square)
next
  assume ring: "hollowInnerSI d < \<bar>y\<bar> \<and> \<bar>y\<bar> \<le> hollowOuterSI d"
  then have "y * y \<le> hollowOuterSI d * hollowOuterSI d"
    by (simp add: abs_le_imp_square_le)
  then show "Q_point ''hollowCircle'' d y =
         Fin ((2 / 3) * (hollowOuterSI d ^ 2 - y ^ 2) powr (3 / 2))"
    using ring by (simp add: Q_point_def Let_def Math_pow15_def power2_eq_square)
qed

theorem hollowCircle_Q_point_pieces_witness:
  "Q_point ''hollowCircle'' default_dims (1 / 10) = Fin 0 \<and>
   Q_point ''hollowCircle'' default_dims 0 =
     Fin ((2 / 3) * (((8 / 100) ^ 2) powr (3 / 2) - ((4 / 100) ^ 2) powr (3 / 2))) \<and>
   Q_point ''hollowCircle'' default_dims (- 6 / 100) =
     Fin ((2 / 3) * ((8 / 100) ^ 2 - (6 / 100) ^ 2) powr (3 / 2))"
  using hollowCircle_Q_point_pieces [of default_dims "1 / 10"]
    hollowCircle_Q_point_pieces [of default_dims 0]
    hollowCircle_Q_point_pieces [of default_dims "- 6 / 100"]
  by (simp add: default_dims_def)

section \<open>Ordinates beyond the section\<close>

text \<open>Beyond the computed outer radius every section kind returns 0 from its first test.\<close>

lemma Q_point_d_outside:
  assumes "valid_dims st d" and "js_less (outerRadius_d (sectionProps_d st d)) (Fin \<bar>y\<bar>)"
  shows "Q_point_d st d y = Fin 0"
  using assms(1)
proof (cases rule: valid_dims_cases)
  case rectangle
  then show ?thesis using assms(2) by (simp add: sectionProps_d_def Q_point_d_def Let_def)
next
  case circle
  then show ?thesis using assms(2) by (simp add: sectionProps_d_def Q_point_d_def Let_def)
next
  case hollowCircle
  then show ?thesis using assms(2) by (simp add: sectionProps_d_def Q_point_d_def Let_def)
next
  case iBeam
  then show ?thesis using assms(2) by (simp add: sectionProps_d_def Q_point_d_def Let_def)
qed

text \<open>
  C8, as the code has it. For valid dimensions of any of the four section kinds and an
  ordinate beyond the computed outer radius, the first moment is 0 and nothing is
  rejected. The transverse shear is then 0 when the computed product
  inertia * shearThickness is neither 0 nor NaN, and NaN when it is. The bending stress and
  the torsional shear are the rounded quotients of their formulas; each is different from
  0 when its computed dividend and divisor are finite, the divisor is not 0 and the exact
  quotient is at least the smallest positive double in magnitude.
\<close>

theorem ordinate_beyond_outerRadius_d:
  assumes "valid_dims st d" and "js_less (outerRadius_d (sectionProps_d st d)) (Fin \<bar>y\<bar>)"
  shows "Q_point_d st d y = Fin 0 \<and>
    (fl_mul (inertia_d (sectionProps_d st d)) (shearThickness_d (sectionProps_d st d)) = Fin 0 \<or>
     fl_mul (inertia_d (sectionProps_d st d)) (shearThickness_d (sectionProps_d st d)) = NaN \<longrightarrow>
       transverseShear (stresses_at_d st d l y) = NaN) \<and>
    (fl_mul (inertia_d (sectionProps_d st d)) (shearThickness_d (sectionProps_d st d)) \<noteq> Fin 0 \<and>
     fl_mul (inertia_d (sectionProps_d st d)) (shearThickness_d (sectionProps_d st d)) \<noteq> NaN \<longrightarrow>
       transverseShear (stresses_at_d st d l y) = Fin 0) \<and>
    bending (stresses_at_d st d l y) =
      fl_div (fl_mul (Fin (momentSI l)) (Fin y)) (inertia_d (sectionProps_d st d)) \<and>
    torsionalShear (stresses_at_d st d l y) =
      fl_div (fl_mul (Fin (torqueSI l)) (Fin \<bar>y\<bar>)) (polarInertia_d (sectionProps_d st d)) \<and>
    (fl_mul (Fin (momentSI l)) (Fin y) = Fin n \<and> inertia_d (sectionProps_d st d) = Fin i \<and>
     i \<noteq> 0 \<and> min_subnormal \<le> \<bar>n / i\<bar> \<longrightarrow>
       bending (stresses_at_d st d l y) \<noteq> Fin 0) \<and>
    (fl_mul (Fin (torqueSI l)) (Fin \<bar>y\<bar>) = Fin m \<and> polarInertia_d (sectionProps_d st d) = Fin j \<and>
     j \<noteq> 0 \<and> min_subnormal \<le> \<bar>m / j\<bar> \<longrightarrow>
       torsionalShear (stresses_at_d st d l y) \<noteq> Fin 0)"
proof -
  have Q: "Q_point_d st d y = Fin 0" using assms by (rule Q_point_d_outside)
  have tr: "transverseShear (stresses_at_d st d l y) =
      fl_div (Fin 0)
        (fl_mul (inertia_d (sectionProps_d st d)) (shearThickness_d (sectionProps_d st d)))"
    by (simp add: stresses_at_d_def Let_def transverseShearSI_d_def Q fl_mul_def to_double_zero)
  have be: "bending (stresses_at_d st d l y) =
      fl_div (fl_mul (Fin (momentSI l)) (Fin y)) (inertia_d (sectionProps_d st d))"
    and to: "torsionalShear (stresses_at_d st d l y) =
      fl_div (fl_mul (Fin (torqueSI l)) (Fin \<bar>y\<bar>)) (polarInertia_d (sectionProps_d st d))"
    by (simp_all add: stresses_at_d_def Let_def bendingStressSI_d_def torsionalShearSI_d_def)
  show ?thesis
    unfolding tr be to fl_div_zero_dividend using Q
    by (auto simp: fl_div_not_zero)
qed

theorem ordinate_beyond_outerRadius_d_witness:
  "Q_point_d ''rectangle'' dyadic_dims 1 = Fin 0 \<and>
   bending (stresses_at_d ''rectangle'' dyadic_dims default_loads 1) =
     fl_div (fl_mul (Fin 1000) (Fin 1))
       (inertia_d (sectionProps_d ''rectangle'' dyadic_dims)) \<and>
   torsionalShear (stresses_at_d ''rectangle'' dyadic_dims default_loads 1) =
     fl_div (fl_mul (Fin 1000) (Fin 1))
       (polarInertia_d (sectionProps_d ''rectangle'' dyadic_dims))"
proof -
  have v: "valid_dims ''rectangle'' dyadic_dims"
    by (simp add: valid_dims_def dyadic_dims_def)
  have o: "js_less (outerRadius_d (sectionProps_d ''rectangle'' dyadic_dims)) (Fin \<bar>1\<bar>)"
    using dyadic_facts(3) by (simp add: sectionProps_d_def Let_def dyadic_dims_def fl_div_def)
  show ?thesis
    using ordinate_beyond_outerRadius_d [OF v o, of default_loads]
    by (simp add: default_loads_def)
qed

text \<open>
  The doubles met at a rectangle with b = h = 2^-400 and at one with b = h = 2^600.
\<close>

lemma tiny_facts:
  "to_double (1 / 2 ^ 401) = Fin (1 / 2 ^ 401)"
  "to_double ((1 / 2 ^ 400) ^ 3) = Fin 0"
  "to_double 1000 = Fin 1000"
proof -
  show "to_double (1 / 2 ^ 401) = Fin (1 / 2 ^ 401)"
    using is_double_dyadic [of 1 "- 401"] by (simp add: is_double_def)
  show "to_double ((1 / 2 ^ 400) ^ 3) = Fin 0"
    by (rule to_double_underflow) (simp add: power_divide)
  show "to_double 1000 = Fin 1000"
    using is_double_dyadic [of 1000 0] by (simp add: is_double_def)
qed

lemma big_facts:
  "to_double (2 ^ 599) = Fin (2 ^ 599)"
  "to_double (2 ^ 1800) = PInf"
  "to_double (1000 * 2 ^ 600) = Fin (1000 * 2 ^ 600)"
proof -
  show "to_double (2 ^ 599) = Fin (2 ^ 599)"
    using is_double_dyadic [of 1 599] by (simp add: is_double_def)
  show "to_double (2 ^ 1800) = PInf"
    by (rule to_double_overflow) (simp add: overflow_threshold_def)
  show "to_double (1000 * 2 ^ 600) = Fin (1000 * 2 ^ 600)"
    using is_double_dyadic [of 1000 600] by (simp add: is_double_def)
qed

text \<open>
  Without those conditions the statement fails. At both rectangles the dimensions are
  valid and the ordinate is beyond the outer radius: at the small one the inertia
  underflows to 0, the transverse shear is 0 / 0 = NaN and the bending stress is infinite;
  at the large one the inertia overflows and the bending stress is 0 although the moment
  is 1000.
\<close>

theorem ordinate_beyond_outerRadius_counterexample:
  "valid_dims ''rectangle'' tiny_rectangle \<and>
   js_less (outerRadius_d (sectionProps_d ''rectangle'' tiny_rectangle)) (Fin \<bar>1\<bar>) \<and>
   transverseShear (stresses_at_d ''rectangle'' tiny_rectangle default_loads 1) = NaN \<and>
   bending (stresses_at_d ''rectangle'' tiny_rectangle default_loads 1) = PInf \<and>
   valid_dims ''rectangle'' big_rectangle \<and>
   js_less (outerRadius_d (sectionProps_d ''rectangle'' big_rectangle)) (Fin \<bar>2 ^ 600\<bar>) \<and>
   momentSI default_loads = 1000 \<and>
   bending (stresses_at_d ''rectangle'' big_rectangle default_loads (2 ^ 600)) = Fin 0"
proof -
  have v: "valid_dims ''rectangle'' tiny_rectangle" "valid_dims ''rectangle'' big_rectangle"
    by (simp_all add: valid_dims_def tiny_rectangle_def big_rectangle_def dyadic_dims_def)
  have tiny: "js_less (outerRadius_d (sectionProps_d ''rectangle'' tiny_rectangle)) (Fin \<bar>1\<bar>)"
    "transverseShear (stresses_at_d ''rectangle'' tiny_rectangle default_loads 1) = NaN"
    "bending (stresses_at_d ''rectangle'' tiny_rectangle default_loads 1) = PInf"
    using tiny_facts
    by (simp_all add: stresses_at_d_def sectionProps_d_def Q_point_d_def Let_def
        tiny_rectangle_def dyadic_dims_def default_loads_def transverseShearSI_d_def
        bendingStressSI_d_def fl_mul_def fl_div_def Math_pow_nat_def to_double_zero
        signed_inf_def)
  have big: "js_less (outerRadius_d (sectionProps_d ''rectangle'' big_rectangle)) (Fin \<bar>2 ^ 600\<bar>)"
    "bending (stresses_at_d ''rectangle'' big_rectangle default_loads (2 ^ 600)) = Fin 0"
    using big_facts
    by (simp_all add: stresses_at_d_def sectionProps_d_def Q_point_d_def Let_def
        big_rectangle_def dyadic_dims_def default_loads_def
        bendingStressSI_d_def fl_mul_def fl_div_def Math_pow_nat_def to_double_zero
        signed_inf_def)
  show ?thesis using v tiny big by (simp add: default_loads_def)
qed

section \<open>Sign of the section properties\<close>

text \<open>Hollow circle: the difference of the two powers.\<close>

lemma hollow_power_difference:
  assumes "0 < Ri" and "Ri < Ro"
  shows "fl_sub (Math_pow_nat (Fin Ro) n) (Math_pow_nat (Fin Ri) n) = NaN \<or>
      nn (fl_sub (Math_pow_nat (Fin Ro) n) (Math_pow_nat (Fin Ri) n))"
    and "fl_sub (Math_pow_nat (Fin Ro) n) (Math_pow_nat (Fin Ri) n) = NaN \<Longrightarrow>
      Math_pow_nat (Fin Ri) n = PInf"
proof -
  have le: "js_le (Math_pow_nat (Fin Ri) n) (Math_pow_nat (Fin Ro) n)"
    using assms by (intro Math_pow_nat_mono) simp_all
  have nn: "nn (Math_pow_nat (Fin Ro) n)" using assms by (intro Math_pow_nat_nn) simp
  show "fl_sub (Math_pow_nat (Fin Ro) n) (Math_pow_nat (Fin Ri) n) = NaN \<or>
      nn (fl_sub (Math_pow_nat (Fin Ro) n) (Math_pow_nat (Fin Ri) n))"
    using le nn by (rule fl_sub_ordered)
  assume "fl_sub (Math_pow_nat (Fin Ro) n) (Math_pow_nat (Fin Ri) n) = NaN"
  then show "Math_pow_nat (Fin Ri) n = PInf"
    using fl_sub_ordered(2) [OF le nn] by simp
qed

text \<open>I-beam: the clear height of the web and the difference of the widths are finite.\<close>

lemma iBeam_web_height:
  assumes "0 < tf" and "2 * tf < h" and "is_double h"
  obtains w where "fl_sub (Fin h) (fl_mul (Fin 2) (Fin tf)) = Fin w" and "0 \<le> w" and "w \<le> h"
proof -
  have "nn (to_double (2 * tf))" using assms(1) by (intro to_double_nn) simp
  moreover have "js_le (to_double (2 * tf)) (Fin h)"
    using assms by (intro to_double_le_double) simp_all
  ultimately obtain t where t: "to_double (2 * tf) = Fin t" "0 \<le> t" "t \<le> h"
    by (cases "to_double (2 * tf)") auto
  have "nn (to_double (h - t))" using t by (intro to_double_nn) simp
  moreover have "js_le (to_double (h - t)) (Fin h)"
    using assms(3) t by (intro to_double_le_double) simp_all
  ultimately obtain w where w: "to_double (h - t) = Fin w" "0 \<le> w" "w \<le> h"
    by (cases "to_double (h - t)") auto
  have "fl_sub (Fin h) (fl_mul (Fin 2) (Fin tf)) = Fin w"
    by (simp add: fl_mul_def fl_sub_def js_sub_def t w)
  then show ?thesis using w that by blast
qed

lemma iBeam_width_difference:
  assumes "0 < bf" and "0 < tw" and "is_double bf" and "is_double tw"
  obtains c where "fl_sub (Fin bf) (Fin tw) = Fin c" and "c \<le> bf"
proof -
  have "js_le (to_double (bf - tw)) (Fin bf)"
    using assms by (intro to_double_le_double) simp_all
  moreover have "js_le (Fin (- tw)) (to_double (bf - tw))"
    using assms by (intro to_double_ge_double is_double_minus) simp_all
  ultimately obtain c where "to_double (bf - tw) = Fin c" "c \<le> bf"
    by (cases "to_double (bf - tw)") auto
  then show ?thesis using that by (simp add: fl_sub_def js_sub_def)
qed

text \<open>
  I-beam: the subtrahend of the inertia is not above the minuend, unless it is NaN, which
  needs an infinite minuend.
\<close>

lemma iBeam_inertia_terms:
  assumes "0 < bf" and "c \<le> bf" and "nn p" and "nn p'" and "js_le p' p"
  shows "(fl_mul (Fin c) p' = NaN \<and> fl_mul (Fin bf) p = PInf) \<or>
    js_le (fl_mul (Fin c) p') (fl_mul (Fin bf) p)"
proof (cases p')
  case p': (Fin x')
  then have x': "0 \<le> x'" using assms(4) by simp
  show ?thesis
  proof (cases p)
    case (Fin x)
    then have "x' \<le> x" using assms(5) p' by simp
    then have "c * x' \<le> bf * x"
      using assms(1,2) x' by (intro mult_mono) simp_all
    then have "js_le (to_double (c * x')) (to_double (bf * x))" by (rule to_double_mono)
    then show ?thesis by (simp add: Fin p' fl_mul_def)
  next
    case PInf
    then have "fl_mul (Fin bf) p = PInf"
      using assms(1) by (simp add: fl_mul_def signed_inf_def)
    moreover have "fl_mul (Fin c) p' \<noteq> NaN"
      by (simp add: p' fl_mul_def to_double_not_NaN)
    ultimately show ?thesis by (simp add: js_le_PInf)
  next
    case NInf
    then show ?thesis using assms(3) by simp
  next
    case NaN
    then show ?thesis using assms(3) by simp
  qed
next
  case PInf
  then have "p = PInf" using assms(5) by (cases p) auto
  then have A: "fl_mul (Fin bf) p = PInf"
    using assms(1) by (simp add: fl_mul_def signed_inf_def)
  show ?thesis
  proof (cases "c = 0")
    case True
    then show ?thesis using A by (simp add: PInf fl_mul_def)
  next
    case False
    then have "fl_mul (Fin c) p' \<noteq> NaN" by (simp add: PInf fl_mul_def signed_inf_def)
    then show ?thesis using A by (simp add: js_le_PInf)
  qed
next
  case NInf
  then show ?thesis using assms(4) by simp
next
  case NaN
  then show ?thesis using assms(4) by simp
qed

lemma iBeam_inertia_d:
  assumes "0 < h" and "0 < bf" and "0 < tf" and "0 < tw" and "2 * tf < h"
    and "is_double h" and "is_double bf" and "is_double tw"
  shows "fl_div (fl_sub (fl_mul (Fin bf) (Math_pow_nat (Fin h) 3))
        (fl_mul (fl_sub (Fin bf) (Fin tw))
          (Math_pow_nat (fl_sub (Fin h) (fl_mul (Fin 2) (Fin tf))) 3))) (Fin 12) = NaN \<or>
      nn (fl_div (fl_sub (fl_mul (Fin bf) (Math_pow_nat (Fin h) 3))
        (fl_mul (fl_sub (Fin bf) (Fin tw))
          (Math_pow_nat (fl_sub (Fin h) (fl_mul (Fin 2) (Fin tf))) 3))) (Fin 12))"
    and "fl_div (fl_sub (fl_mul (Fin bf) (Math_pow_nat (Fin h) 3))
        (fl_mul (fl_sub (Fin bf) (Fin tw))
          (Math_pow_nat (fl_sub (Fin h) (fl_mul (Fin 2) (Fin tf))) 3))) (Fin 12) = NaN \<Longrightarrow>
      fl_mul (Fin bf) (Math_pow_nat (Fin h) 3) = PInf"
proof -
  obtain w where w: "fl_sub (Fin h) (fl_mul (Fin 2) (Fin tf)) = Fin w" "0 \<le> w" "w \<le> h"
    using assms(3,5,6) by (rule iBeam_web_height)
  obtain c where c: "fl_sub (Fin bf) (Fin tw) = Fin c" "c \<le> bf"
    using assms(2,4,7,8) by (rule iBeam_width_difference)
  define A where "A = fl_mul (Fin bf) (Math_pow_nat (Fin h) 3)"
  define B where "B = fl_mul (Fin c) (Math_pow_nat (Fin w) 3)"
  have nnp: "nn (Math_pow_nat (Fin h) 3)" and nnp': "nn (Math_pow_nat (Fin w) 3)"
    using assms(1) w(2) by (simp_all add: Math_pow_nat_nn)
  have le: "js_le (Math_pow_nat (Fin w) 3) (Math_pow_nat (Fin h) 3)"
    using w by (intro Math_pow_nat_mono)
  have nnA: "nn A" unfolding A_def using assms(2) nnp by (rule fl_mul_pos_nn)
  have key: "(B = NaN \<and> A = PInf) \<or> js_le B A"
    unfolding A_def B_def using assms(2) c(2) nnp nnp' le by (rule iBeam_inertia_terms)
  have D: "(fl_sub A B = NaN \<or> nn (fl_sub A B)) \<and> (fl_sub A B = NaN \<longrightarrow> A = PInf)"
  proof (cases "js_le B A")
    case True
    then show ?thesis using fl_sub_ordered [OF True nnA] by blast
  next
    case False
    then have "B = NaN" "A = PInf" using key by simp_all
    then show ?thesis by (simp add: fl_sub_def js_sub_def)
  qed
  have I: "fl_div (fl_sub (fl_mul (Fin bf) (Math_pow_nat (Fin h) 3))
        (fl_mul (fl_sub (Fin bf) (Fin tw))
          (Math_pow_nat (fl_sub (Fin h) (fl_mul (Fin 2) (Fin tf))) 3))) (Fin 12) =
      fl_div (fl_sub A B) (Fin 12)"
    by (simp add: A_def B_def w c)
  show "fl_div (fl_sub (fl_mul (Fin bf) (Math_pow_nat (Fin h) 3))
        (fl_mul (fl_sub (Fin bf) (Fin tw))
          (Math_pow_nat (fl_sub (Fin h) (fl_mul (Fin 2) (Fin tf))) 3))) (Fin 12) = NaN \<or>
      nn (fl_div (fl_sub (fl_mul (Fin bf) (Math_pow_nat (Fin h) 3))
        (fl_mul (fl_sub (Fin bf) (Fin tw))
          (Math_pow_nat (fl_sub (Fin h) (fl_mul (Fin 2) (Fin tf))) 3))) (Fin 12))"
    unfolding I using D by (auto simp: fl_div_NaN_pos fl_div_nn_pos)
  assume "fl_div (fl_sub (fl_mul (Fin bf) (Math_pow_nat (Fin h) 3))
        (fl_mul (fl_sub (Fin bf) (Fin tw))
          (Math_pow_nat (fl_sub (Fin h) (fl_mul (Fin 2) (Fin tf))) 3))) (Fin 12) = NaN"
  then have "fl_sub A B = NaN" unfolding I by (simp add: fl_div_NaN_pos)
  then show "fl_mul (Fin bf) (Math_pow_nat (Fin h) 3) = PInf"
    using D by (simp add: A_def)
qed

lemma iBeam_area_d:
  assumes "0 < h" and "0 < bf" and "0 < tf" and "0 < tw" and "2 * tf < h" and "is_double h"
  shows "nn (fl_add (fl_mul (fl_mul (Fin 2) (Fin bf)) (Fin tf))
      (fl_mul (Fin tw) (fl_sub (Fin h) (fl_mul (Fin 2) (Fin tf)))))"
proof -
  obtain w where w: "fl_sub (Fin h) (fl_mul (Fin 2) (Fin tf)) = Fin w" "0 \<le> w" "w \<le> h"
    using assms(3,5,6) by (rule iBeam_web_height)
  have "nn (fl_mul (Fin 2) (Fin bf))" using assms(2) by (intro fl_mul_pos_nn) simp_all
  then have "nn (fl_mul (fl_mul (Fin 2) (Fin bf)) (Fin tf))"
    using assms(3) by (rule fl_mul_nn_pos)
  moreover have "nn (fl_mul (Fin tw) (Fin w))"
    using assms(4) w(2) by (intro fl_mul_pos_nn) simp_all
  ultimately show ?thesis unfolding w(1) by (rule fl_add_nn)
qed

text \<open>
  C9, as the code has it. For each of the four section kinds with valid dimensions held
  in doubles, the area, the inertia and the polar inertia are never negative: each is a
  number from 0 upwards or +Infinity, or NaN. NaN arises only after an overflow: for the
  hollow circle when Math.pow of the inner radius is already infinite, for the I-beam when
  bf * Math.pow(h, 3) is infinite; the rectangle, the circle and the I-beam's area are
  never NaN.
\<close>

theorem sectionProps_d_never_negative:
  assumes "valid_dims st d" and "double_dims d"
  shows "nonneg_or_NaN (area_d (sectionProps_d st d)) \<and>
    nonneg_or_NaN (inertia_d (sectionProps_d st d)) \<and>
    nonneg_or_NaN (polarInertia_d (sectionProps_d st d)) \<and>
    (area_d (sectionProps_d st d) = NaN \<longrightarrow>
       st = ''hollowCircle'' \<and> Math_pow_nat (Fin (hollowInnerSI d)) 2 = PInf) \<and>
    (inertia_d (sectionProps_d st d) = NaN \<or> polarInertia_d (sectionProps_d st d) = NaN \<longrightarrow>
       (st = ''hollowCircle'' \<and> Math_pow_nat (Fin (hollowInnerSI d)) 4 = PInf) \<or>
       (st = ''iBeam'' \<and>
        fl_mul (Fin (iBeamFlangeWidthSI d)) (Math_pow_nat (Fin (iBeamDepthSI d)) 3) = PInf))"
  using assms(1)
proof (cases rule: valid_dims_cases)
  case rectangle
  have h: "nn (Math_pow_nat (Fin (rectHeightSI d)) 3)"
    using rectangle(3) by (intro Math_pow_nat_nn) simp
  have "nn (area_d (sectionProps_d st d))" "nn (inertia_d (sectionProps_d st d))"
    "nn (polarInertia_d (sectionProps_d st d))"
    using rectangle h
    by (simp_all add: sectionProps_d_def Let_def fl_mul_pos_nn fl_div_nn_pos)
  then show ?thesis by (auto simp: nonneg_or_NaN_iff dest: nn_not_NaN)
next
  case circle
  have r: "nn (fl_div (Fin (circleDiameterSI d)) (Fin 2))"
    using circle by (intro fl_div_nn_pos) simp_all
  have pi: "0 < Math_PI" using Math_PI_bounds by linarith
  have "nn (area_d (sectionProps_d st d))" "nn (inertia_d (sectionProps_d st d))"
    "nn (polarInertia_d (sectionProps_d st d))"
    using circle r pi
    by (simp_all add: sectionProps_d_def Let_def fl_mul_pos_nn fl_div_nn_pos Math_pow_nat_nn)
  then show ?thesis by (auto simp: nonneg_or_NaN_iff dest: nn_not_NaN)
next
  case hollowCircle
  define D2 where "D2 = fl_sub (Math_pow_nat (Fin (hollowOuterSI d)) 2)
      (Math_pow_nat (Fin (hollowInnerSI d)) 2)"
  define D4 where "D4 = fl_sub (Math_pow_nat (Fin (hollowOuterSI d)) 4)
      (Math_pow_nat (Fin (hollowInnerSI d)) 4)"
  have D2: "D2 = NaN \<or> nn D2" "D2 = NaN \<Longrightarrow> Math_pow_nat (Fin (hollowInnerSI d)) 2 = PInf"
    unfolding D2_def using hollowCircle(2,3) by (rule hollow_power_difference)+
  have D4: "D4 = NaN \<or> nn D4" "D4 = NaN \<Longrightarrow> Math_pow_nat (Fin (hollowInnerSI d)) 4 = PInf"
    unfolding D4_def using hollowCircle(2,3) by (rule hollow_power_difference)+
  have pi: "0 < Math_PI" using Math_PI_bounds by linarith
  obtain c4 where c4: "0 < c4" "fl_div (Fin Math_PI) (Fin 4) = Fin c4"
    by (rule Math_PI_fraction [of 4]) simp_all
  obtain c2 where c2: "0 < c2" "fl_div (Fin Math_PI) (Fin 2) = Fin c2"
    by (rule Math_PI_fraction [of 2]) simp_all
  have props: "area_d (sectionProps_d st d) = fl_mul (Fin Math_PI) D2"
    "inertia_d (sectionProps_d st d) = fl_mul (Fin c4) D4"
    "polarInertia_d (sectionProps_d st d) = fl_mul (Fin c2) D4"
    using hollowCircle by (simp_all add: sectionProps_d_def Let_def D2_def D4_def c4 c2)
  show ?thesis
    unfolding props nonneg_or_NaN_iff
    using fl_mul_pos_cases [OF pi D2(1)] fl_mul_pos_cases [OF c4(1) D4(1)]
      fl_mul_pos_cases [OF c2(1) D4(1)] D2(2) D4(2) hollowCircle(1)
    by blast
next
  case iBeam
  have dbl: "is_double (iBeamDepthSI d)" "is_double (iBeamFlangeWidthSI d)"
    "is_double (iBeamWebThickSI d)"
    using assms(2) by (simp_all add: double_dims_def)
  note I = iBeam_inertia_d [OF iBeam(2-6) dbl]
  have a: "nn (area_d (sectionProps_d st d))"
    using iBeam_area_d [OF iBeam(2-6) dbl(1)] iBeam(1)
    by (simp add: sectionProps_d_def Let_def)
  have props: "inertia_d (sectionProps_d st d) =
      fl_div (fl_sub (fl_mul (Fin (iBeamFlangeWidthSI d)) (Math_pow_nat (Fin (iBeamDepthSI d)) 3))
        (fl_mul (fl_sub (Fin (iBeamFlangeWidthSI d)) (Fin (iBeamWebThickSI d)))
          (Math_pow_nat (fl_sub (Fin (iBeamDepthSI d))
            (fl_mul (Fin 2) (Fin (iBeamFlangeThickSI d)))) 3))) (Fin 12)"
    "polarInertia_d (sectionProps_d st d) = inertia_d (sectionProps_d st d)"
    using iBeam(1) by (simp_all add: sectionProps_d_def Let_def)
  show ?thesis
    unfolding props(2) unfolding props(1) nonneg_or_NaN_iff
    using I a iBeam(1) nn_not_NaN [OF a] by (auto simp: nonneg_or_NaN_iff)
qed

lemma double_dims_dyadic: "double_dims dyadic_dims"
  using is_double_dyadic [of 1 "- 4"] is_double_dyadic [of 1 "- 3"] is_double_dyadic [of 1 "- 2"]
    is_double_dyadic [of 1 "- 5"] is_double_dyadic [of 1 "- 6"]
  by (simp add: double_dims_def dyadic_dims_def)

theorem sectionProps_d_never_negative_witness:
  "nonneg_or_NaN (area_d (sectionProps_d ''iBeam'' dyadic_dims)) \<and>
   nonneg_or_NaN (inertia_d (sectionProps_d ''iBeam'' dyadic_dims)) \<and>
   nonneg_or_NaN (polarInertia_d (sectionProps_d ''iBeam'' dyadic_dims)) \<and>
   nonneg_or_NaN (area_d (sectionProps_d ''hollowCircle'' dyadic_dims))"
proof -
  have "valid_dims ''iBeam'' dyadic_dims" and "valid_dims ''hollowCircle'' dyadic_dims"
    by (simp_all add: valid_dims_def dyadic_dims_def)
  then show ?thesis
    using sectionProps_d_never_negative [of "''iBeam''" dyadic_dims]
      sectionProps_d_never_negative [of "''hollowCircle''" dyadic_dims] double_dims_dyadic
    by blast
qed

text \<open>The doubles met at an I-beam with h = 2^343, bf = 2, tf = 2^340 and tw = 1.\<close>

lemma huge_facts:
  "to_double (2 ^ 341) = Fin (2 ^ 341)"
  "to_double (3 * 2 ^ 341) = Fin (3 * 2 ^ 341)"
  "to_double 1 = Fin 1"
  "to_double (2 ^ 1029) = PInf"
  "to_double (27 * 2 ^ 1023) = PInf"
  "is_double (2 ^ 343)" "is_double 2" "is_double (2 ^ 340)" "is_double 1"
proof -
  show "to_double (2 ^ 341) = Fin (2 ^ 341)"
    using is_double_dyadic [of 1 341] by (simp add: is_double_def)
  show "to_double (3 * 2 ^ 341) = Fin (3 * 2 ^ 341)"
    using is_double_dyadic [of 3 341] by (simp add: is_double_def)
  show "to_double 1 = Fin 1"
    using is_double_dyadic [of 1 0] by (simp add: is_double_def)
  show "to_double (2 ^ 1029) = PInf"
    by (rule to_double_overflow) (simp add: overflow_threshold_def)
  show "to_double (27 * 2 ^ 1023) = PInf"
    by (rule to_double_overflow) (simp add: overflow_threshold_def)
  show "is_double (2 ^ 343)" using is_double_dyadic [of 1 343] by simp
  show "is_double 2" using is_double_dyadic [of 1 1] by simp
  show "is_double (2 ^ 340)" using is_double_dyadic [of 1 340] by simp
  show "is_double 1" using is_double_dyadic [of 1 0] by simp
qed

text \<open>
  At that I-beam, whose dimensions are valid doubles, both powers overflow; the inertia
  is Infinity - Infinity = NaN, and NaN is not greater than or equal to 0.
\<close>

theorem iBeam_inertia_d_NaN:
  "valid_dims ''iBeam'' huge_iBeam \<and> double_dims huge_iBeam \<and>
   inertia_d (sectionProps_d ''iBeam'' huge_iBeam) = NaN \<and>
   \<not> js_le (Fin 0) (inertia_d (sectionProps_d ''iBeam'' huge_iBeam))"
proof -
  have v: "valid_dims ''iBeam'' huge_iBeam"
    by (simp add: valid_dims_def huge_iBeam_def dyadic_dims_def)
  have d: "double_dims huge_iBeam"
    using double_dims_dyadic huge_facts(6-9)
    by (simp add: double_dims_def huge_iBeam_def dyadic_dims_def)
  have i: "inertia_d (sectionProps_d ''iBeam'' huge_iBeam) = NaN"
    using huge_facts(1-5)
    by (simp add: sectionProps_d_def Let_def huge_iBeam_def dyadic_dims_def fl_mul_def
        fl_sub_def fl_div_def js_sub_def Math_pow_nat_def signed_inf_def)
  show ?thesis using v d i by simp
qed

section \<open>Unrecognised section tags\<close>

text \<open>
  C10. A section tag other than rectangle, circle, hollowCircle and iBeam gives the
  all-zero property record and the first moment 0, whatever the dimensions and the
  ordinate are; both functions are total, so nothing is raised.
\<close>

theorem unknown_sectionType_zero:
  assumes "sectionType \<noteq> ''rectangle''" and "sectionType \<noteq> ''circle''"
    and "sectionType \<noteq> ''hollowCircle''" and "sectionType \<noteq> ''iBeam''"
  shows "sectionProps sectionType d =
       \<lparr>area = 0, inertia = 0, polarInertia = 0, outerRadius = 0, shearThickness = 0\<rparr>
     \<and> Q_point sectionType d y = Fin 0"
  using assms by (simp add: sectionProps_def Q_point_def)

theorem unknown_sectionType_zero_witness:
  "sectionProps ''triangle'' default_dims =
       \<lparr>area = 0, inertia = 0, polarInertia = 0, outerRadius = 0, shearThickness = 0\<rparr>
     \<and> Q_point ''triangle'' default_dims (3 / 100) = Fin 0"
  using unknown_sectionType_zero [of "''triangle''" default_dims "3 / 100"] by simp

end
